theory Spec2Isabelle
  imports Complex_Main "HOL-Library.Multiset"
begin

section \<open>Python strings\<close>

text \<open>
  Strings are modelled as lists of 8-bit characters. \<open>isspace\<close> lists the code points
  below 256 that Python's \<open>str.strip()\<close> removes; \<open>upper\<close> and \<open>lower\<close> change the ASCII
  letters only. The parsers below compare the outcome with the four ASCII letters
  \<open>A\<close> to \<open>D\<close> only, which no non-ASCII character is mapped to.
\<close>

definition isspace :: "char \<Rightarrow> bool" where
  "isspace c = (c \<in> set [CHR 0x09, CHR 0x0A, CHR 0x0B, CHR 0x0C, CHR 0x0D,
                          CHR 0x1C, CHR 0x1D, CHR 0x1E, CHR 0x1F, CHR 0x20,
                          CHR 0x85, CHR 0xA0])"

definition strip :: "string \<Rightarrow> string" where
  "strip s = rev (dropWhile isspace (rev (dropWhile isspace s)))"

definition upper_char :: "char \<Rightarrow> char" where
  "upper_char c = (let n = (of_char c :: nat) in
                   if 97 \<le> n \<and> n \<le> 122 then char_of (n - 32) else c)"

definition lower_char :: "char \<Rightarrow> char" where
  "lower_char c = (let n = (of_char c :: nat) in
                   if 65 \<le> n \<and> n \<le> 90 then char_of (n + 32) else c)"

definition upper :: "string \<Rightarrow> string" where
  "upper s = map upper_char s"

definition lower :: "string \<Rightarrow> string" where
  "lower s = map lower_char s"

text \<open>\<open>s.split(sep)\<close> for a one-character separator: one more part than separators.\<close>

fun split_on :: "char \<Rightarrow> string \<Rightarrow> string list" where
  "split_on sep [] = [[]]"
| "split_on sep (c # cs) =
     (if c = sep then [] # split_on sep cs
      else (case split_on sep cs of
              [] \<Rightarrow> [[c]]
            | p # ps \<Rightarrow> (c # p) # ps))"

section \<open>Soil-group parsers\<close>

text \<open>
  Both \<open>parse_soil_group\<close> functions share the block that resolves a split hydrologic
  soil group: when the text contains a slash, the second part, stripped, replaces it.
  The log messages of the source are reporting only and are left out.
\<close>

definition split_hsg :: "string \<Rightarrow> string" where
  "split_hsg soil_group =
     (if CHR ''/'' \<in> set soil_group then
        (let parts = split_on CHR ''/'' soil_group in
         if length parts \<ge> 2 then strip (parts ! 1) else soil_group)
      else soil_group)"

definition valid_groups :: "string list" where
  "valid_groups = [''A'', ''B'', ''C'', ''D'']"

text \<open>\<open>Components/CN/composite_cn_calculator.py\<close>: an invalid group becomes \<open>d\<close>.\<close>

definition parse_soil_group_cn :: "string \<Rightarrow> string" where
  "parse_soil_group_cn soil_group_raw =
     (let soil_group = split_hsg (upper (strip soil_group_raw)) in
      if soil_group \<in> set valid_groups then lower soil_group else ''d'')"

text \<open>
  \<open>Components/Rational_C/composite_C_calculator.py\<close>: the attribute may be missing
  (\<open>None\<close>) or empty, and an invalid group is reported as \<open>None\<close>.
\<close>

definition parse_soil_group_c :: "string option \<Rightarrow> string option" where
  "parse_soil_group_c soil_group_raw =
     (case soil_group_raw of
        None \<Rightarrow> None
      | Some raw \<Rightarrow>
          if raw = [] then None
          else (let soil_group = split_hsg (upper (strip raw)) in
                if soil_group \<in> set valid_groups then Some (lower soil_group) else None))"

section \<open>Composite aggregators\<close>

text \<open>
  Floating-point numbers are modelled as real numbers throughout: sums and quotients
  are exact, so statements hold up to the rounding of the machine arithmetic.
\<close>

definition acres_from_sqft :: "real \<Rightarrow> real" where
  "acres_from_sqft area_sqft = area_sqft / 43560"

text \<open>
  One feature of the final intersection layer: the zone attribute, the land-use
  attribute as text, the soil attribute (\<open>None\<close> for a missing value) and the area of
  the geometry in square feet.
\<close>

record 'z feature =
  zone_id :: 'z
  lu_attr :: string
  soil_attr :: "string option"
  area_sqft :: real

text \<open>Python's \<open>str(x)\<close> on an attribute value; a missing value prints as \<open>NULL\<close>.\<close>

definition py_str :: "string option \<Rightarrow> string" where
  "py_str v = (case v of None \<Rightarrow> ''NULL'' | Some s \<Rightarrow> s)"

record accumulator =
  total_area :: real
  area_sum :: real

record 'z detail =
  d_zone :: 'z
  d_landuse :: string
  d_soil_used :: string
  d_soil_original :: string
  d_area_acres :: real
  d_value :: real
  d_product :: real

record 'z agg_state =
  data :: "'z \<rightharpoonup> accumulator"
  detailed_records :: "'z detail list"

definition agg_init :: "'z agg_state" where
  "agg_init = \<lparr>data = Map.empty, detailed_records = []\<rparr>"

text \<open>
  The accumulation shared by both loops: create the zone's entry when it is missing,
  then add the area and the product.
\<close>

definition accumulate :: "('z \<rightharpoonup> accumulator) \<Rightarrow> 'z \<Rightarrow> real \<Rightarrow> real \<Rightarrow> ('z \<rightharpoonup> accumulator)" where
  "accumulate m z a v =
     (let acc = (case m z of None \<Rightarrow> \<lparr>total_area = 0, area_sum = 0\<rparr> | Some acc \<Rightarrow> acc)
      in m(z \<mapsto> \<lparr>total_area = total_area acc + a, area_sum = area_sum acc + v * a\<rparr>))"

subsection \<open>Curve number (\<open>CompositeCNDialog.run_calculation\<close>)\<close>

type_synonym cn_table = "string \<times> string \<rightharpoonup> real"

text \<open>
  The lookup dictionary is filled from the rows of the lookup table: every row gives
  the four entries of its land use, one per soil group.
\<close>

record lookup_row =
  row_landuse :: string
  row_a :: real
  row_b :: real
  row_c :: real
  row_d :: real

definition add_row :: "cn_table \<Rightarrow> lookup_row \<Rightarrow> cn_table" where
  "add_row cn_lookup row =
     (let landuse_key = lower (strip (row_landuse row))
      in cn_lookup((landuse_key, ''a'') \<mapsto> row_a row, (landuse_key, ''b'') \<mapsto> row_b row,
                   (landuse_key, ''c'') \<mapsto> row_c row, (landuse_key, ''d'') \<mapsto> row_d row))"

definition build_cn_lookup :: "lookup_row list \<Rightarrow> cn_table" where
  "build_cn_lookup rows = foldl add_row Map.empty rows"

definition cn_landuse_code :: "'z feature \<Rightarrow> string" where
  "cn_landuse_code f = lower (strip (lu_attr f))"

definition cn_soil_group_raw :: "'z feature \<Rightarrow> string" where
  "cn_soil_group_raw f = strip (py_str (soil_attr f))"

definition cn_key :: "'z feature \<Rightarrow> string \<times> string" where
  "cn_key f = (cn_landuse_code f, parse_soil_group_cn (cn_soil_group_raw f))"

text \<open>The loop body; a lookup miss is the \<open>continue\<close> of the source.\<close>

definition cn_step :: "cn_table \<Rightarrow> 'z agg_state \<Rightarrow> 'z feature \<Rightarrow> 'z agg_state" where
  "cn_step cn_lookup st f =
     (let subbasin_id = zone_id f;
          landuse_code = cn_landuse_code f;
          soil_group_raw = cn_soil_group_raw f;
          soil_group = parse_soil_group_cn soil_group_raw;
          area_acres = acres_from_sqft (area_sqft f)
      in case cn_lookup (landuse_code, soil_group) of
           None \<Rightarrow> st
         | Some cn_value \<Rightarrow>
             \<lparr>data = accumulate (data st) subbasin_id area_acres cn_value,
              detailed_records = detailed_records st @
                [\<lparr>d_zone = subbasin_id, d_landuse = landuse_code,
                  d_soil_used = upper soil_group, d_soil_original = soil_group_raw,
                  d_area_acres = area_acres, d_value = cn_value,
                  d_product = cn_value * area_acres\<rparr>]\<rparr>)"

definition cn_accumulate :: "cn_table \<Rightarrow> 'z feature list \<Rightarrow> 'z agg_state" where
  "cn_accumulate cn_lookup fs = foldl (cn_step cn_lookup) agg_init fs"

text \<open>The value written to the output layer for a zone (\<open>None\<close> is NULL).\<close>

definition composite :: "('z \<rightharpoonup> accumulator) \<Rightarrow> 'z \<Rightarrow> real option" where
  "composite m z =
     (case m z of
        None \<Rightarrow> None
      | Some acc \<Rightarrow> if total_area acc > 0 then Some (area_sum acc / total_area acc) else None)"

definition cn_comp :: "cn_table \<Rightarrow> 'z feature list \<Rightarrow> 'z \<Rightarrow> real option" where
  "cn_comp cn_lookup fs z = composite (data (cn_accumulate cn_lookup fs)) z"

text \<open>
  The header row of the detailed CSV report: written for the zones that have a
  detailed record, with \<open>0\<close> when the total area is not positive.
\<close>

definition cn_detailed_csv_composite :: "cn_table \<Rightarrow> 'z feature list \<Rightarrow> 'z \<Rightarrow> real option" where
  "cn_detailed_csv_composite cn_lookup fs z =
     (let st = cn_accumulate cn_lookup fs in
      if z \<in> set (map d_zone (detailed_records st)) then
        (case data st z of
           None \<Rightarrow> None
         | Some acc \<Rightarrow>
             Some (if total_area acc > 0 then area_sum acc / total_area acc else 0))
      else None)"

subsection \<open>Rational-method C (\<open>RationalCCalculatorDialog.run_calculation\<close>)\<close>

datatype slope_category = Slope_0_2 | Slope_2_6 | Slope_6_plus

fun slope_suffix :: "slope_category \<Rightarrow> string" where
  "slope_suffix Slope_0_2 = ''_0-2%''"
| "slope_suffix Slope_2_6 = ''_2-6%''"
| "slope_suffix Slope_6_plus = ''_6%+''"

text \<open>
  The lookup data frame, indexed by land use, read at (row label, column label); a
  missing row or column is the \<open>KeyError\<close> of the source.
\<close>

type_synonym c_table = "string \<times> string \<rightharpoonup> real"

definition c_landuse_code :: "'z feature \<Rightarrow> string" where
  "c_landuse_code f = lower (strip (lu_attr f))"

text \<open>
  The C value of a feature: the constant for an unrecognised soil group, the table
  entry otherwise; \<open>None\<close> is the \<open>KeyError\<close> branch, which skips the polygon.
\<close>

definition c_value_of :: "c_table \<Rightarrow> slope_category \<Rightarrow> 'z feature \<Rightarrow> real option" where
  "c_value_of c_lookup sl f =
     (case parse_soil_group_c (soil_attr f) of
        None \<Rightarrow> Some 0.95
      | Some soil_group \<Rightarrow> c_lookup (c_landuse_code f, soil_group @ slope_suffix sl))"

definition c_step :: "c_table \<Rightarrow> slope_category \<Rightarrow> 'z agg_state \<Rightarrow> 'z feature \<Rightarrow> 'z agg_state" where
  "c_step c_lookup sl st f =
     (let catchment_id = zone_id f;
          landuse_code = c_landuse_code f;
          soil_group = parse_soil_group_c (soil_attr f);
          area_acres = acres_from_sqft (area_sqft f)
      in case c_value_of c_lookup sl f of
           None \<Rightarrow> st
         | Some c_value \<Rightarrow>
             \<lparr>data = accumulate (data st) catchment_id area_acres c_value,
              detailed_records = detailed_records st @
                [\<lparr>d_zone = catchment_id, d_landuse = landuse_code,
                  d_soil_used = (case soil_group of None \<Rightarrow> ''N/A'' | Some g \<Rightarrow> upper g),
                  d_soil_original = strip (py_str (soil_attr f)),
                  d_area_acres = area_acres, d_value = c_value,
                  d_product = c_value * area_acres\<rparr>]\<rparr>)"

definition c_accumulate :: "c_table \<Rightarrow> slope_category \<Rightarrow> 'z feature list \<Rightarrow> 'z agg_state" where
  "c_accumulate c_lookup sl fs = foldl (c_step c_lookup sl) agg_init fs"

definition c_comp :: "c_table \<Rightarrow> slope_category \<Rightarrow> 'z feature list \<Rightarrow> 'z \<Rightarrow> real option" where
  "c_comp c_lookup sl fs z = composite (data (c_accumulate c_lookup sl fs)) z"

subsection \<open>The area-weighted mean the aggregators are compared with\<close>

text \<open>
  The area-weighted mean of a list of (value, area) pairs: the sum of the products
  over the sum of the areas, undefined when the total area is not positive.
\<close>

definition area_weighted_mean :: "(real \<times> real) list \<Rightarrow> real option" where
  "area_weighted_mean vas =
     (let total = (\<Sum>(v, a)\<leftarrow>vas. a); wsum = (\<Sum>(v, a)\<leftarrow>vas. v * a)
      in if total > 0 then Some (wsum / total) else None)"

text \<open>
  The key the Rational-C loop looks up for a feature: the land-use code and the column
  named by the soil group and the slope suffix; \<open>None\<close> when the soil group is not
  recognised and no lookup is made.
\<close>

definition c_key :: "slope_category \<Rightarrow> 'z feature \<Rightarrow> (string \<times> string) option" where
  "c_key sl f =
     (case parse_soil_group_c (soil_attr f) of
        None \<Rightarrow> None
      | Some soil_group \<Rightarrow> Some (c_landuse_code f, soil_group @ slope_suffix sl))"

text \<open>
  The composite as the specification words it: the area-weighted mean over exactly
  the features of the zone whose key is found in the lookup table.
\<close>

definition spec_composite ::
  "('z feature \<Rightarrow> (string \<times> string) option) \<Rightarrow> (string \<times> string \<rightharpoonup> real) \<Rightarrow>
   'z feature list \<Rightarrow> 'z \<Rightarrow> real option" where
  "spec_composite key tbl fs z =
     area_weighted_mean
       (concat (map (\<lambda>f. if zone_id f = z then
                            (case key f of
                               None \<Rightarrow> []
                             | Some k \<Rightarrow> (case tbl k of
                                           None \<Rightarrow> []
                                         | Some v \<Rightarrow> [(v, acres_from_sqft (area_sqft f))]))
                          else []) fs))"

section \<open>Time of concentration (\<open>tc_processing.py\<close>)\<close>

datatype error = ValueError | TypeError | ZeroDivisionError | StatisticsError

record TCParameters =
  flow_length_ft :: real
  elevation_diff_ft :: real
  slope_ft_ft :: real
  upstream_elev_ft :: real
  downstream_elev_ft :: real
  curve_number :: "real option"
  runoff_coefficient :: "real option"
  roughness_coefficient :: "real option"

text \<open>
  \<open>x and not (lo <= x <= hi)\<close> on an optional number: \<open>None\<close> and \<open>0\<close> are false, so
  the range is only tested on the other values.
\<close>

definition out_of_range :: "real option \<Rightarrow> real \<Rightarrow> real \<Rightarrow> bool" where
  "out_of_range x lo hi =
     (case x of None \<Rightarrow> False | Some v \<Rightarrow> v \<noteq> 0 \<and> \<not> (lo \<le> v \<and> v \<le> hi))"

text \<open>\<open>x or d\<close> on an optional number.\<close>

definition py_or :: "real option \<Rightarrow> real \<Rightarrow> real" where
  "py_or x d = (case x of None \<Rightarrow> d | Some v \<Rightarrow> if v = 0 then d else v)"

text \<open>
  \<open>TCParameters.__post_init__\<close>: the four checks in the order of the source; the
  fields are never changed, and the roughness coefficient is not looked at.
\<close>

definition post_init :: "TCParameters \<Rightarrow> error + unit" where
  "post_init p =
     (if flow_length_ft p \<le> 0 then Inl ValueError
      else if slope_ft_ft p \<le> 0 then Inl ValueError
      else if out_of_range (curve_number p) 30 98 then Inl ValueError
      else if out_of_range (runoff_coefficient p) 0.1 0.95 then Inl ValueError
      else Inr ())"

text \<open>The constructor: the fields are stored as given, then validated.\<close>

definition TCParameters_init :: "TCParameters \<Rightarrow> error + TCParameters" where
  "TCParameters_init p = (case post_init p of Inl e \<Rightarrow> Inl e | Inr u \<Rightarrow> Inr p)"

text \<open>
  The arithmetic of the formulas, with the exceptions Python raises: float division by
  zero raises \<open>ZeroDivisionError\<close>, \<open>math.sqrt\<close> of a negative number raises
  \<open>ValueError\<close>. A negative float under a fractional exponent gives a complex number,
  on which the \<open>max\<close> that ends every formula raises \<open>TypeError\<close>; the exponents used
  are positive, so zero to the power is zero, as with \<open>powr\<close>.
\<close>

definition py_div :: "real \<Rightarrow> real \<Rightarrow> error + real" where
  "py_div a b = (if b = 0 then Inl ZeroDivisionError else Inr (a / b))"

definition math_sqrt :: "real \<Rightarrow> error + real" where
  "math_sqrt x = (if x < 0 then Inl ValueError else Inr (sqrt x))"

definition py_pow :: "real \<Rightarrow> real \<Rightarrow> error + real" where
  "py_pow x a = (if x < 0 then Inl TypeError else Inr (x powr a))"

definition bind_err :: "error + 'a \<Rightarrow> ('a \<Rightarrow> error + 'b) \<Rightarrow> error + 'b" where
  "bind_err m k = (case m of Inl e \<Rightarrow> Inl e | Inr x \<Rightarrow> k x)"

definition KirpichMethod_calculate :: "TCParameters \<Rightarrow> error + real" where
  "KirpichMethod_calculate p =
     (let L = flow_length_ft p;
          S = max (slope_ft_ft p) 0.001
      in bind_err (py_pow L 0.77) (\<lambda>L_pow.
         bind_err (py_pow S 0.385) (\<lambda>S_pow.
         bind_err (py_div (0.0078 * L_pow) S_pow) (\<lambda>tc_minutes.
         Inr (max tc_minutes 5.0)))))"

definition FAAMethod_calculate :: "TCParameters \<Rightarrow> error + real" where
  "FAAMethod_calculate p =
     (let L = flow_length_ft p;
          S = max (slope_ft_ft p) 0.001;
          C = py_or (runoff_coefficient p) 0.5;
          C = max 0.1 (min 0.95 C)
      in bind_err (math_sqrt (L / 1000.0)) (\<lambda>L_root.
         bind_err (math_sqrt S) (\<lambda>S_root.
         bind_err (py_div (1.8 * (1.1 - C) * L_root) S_root) (\<lambda>tc_minutes.
         Inr (max tc_minutes 5.0)))))"

definition SCSLagTimeMethod_calculate :: "TCParameters \<Rightarrow> error + real" where
  "SCSLagTimeMethod_calculate p =
     (let L = flow_length_ft p;
          S_percent = slope_ft_ft p * 100;
          S_percent = max S_percent 0.1;
          CN = py_or (curve_number p) 70.0;
          CN = max 30 (min 98 CN)
      in bind_err (py_pow L 0.8) (\<lambda>L_pow.
         bind_err (py_div 1000.0 CN) (\<lambda>q.
         bind_err (py_pow (q - 9.0) 0.7) (\<lambda>R_pow.
         bind_err (math_sqrt S_percent) (\<lambda>S_root.
           (let numerator = L_pow * R_pow;
                denominator = 1900.0 * S_root
            in bind_err (py_div numerator denominator) (\<lambda>tlag_hours.
                 (let tc_minutes = 1.67 * tlag_hours * 60.0
                  in Inr (max tc_minutes 5.0)))))))))"

definition KerbyMethod_calculate :: "TCParameters \<Rightarrow> error + real" where
  "KerbyMethod_calculate p =
     (let L = flow_length_ft p;
          S = max (slope_ft_ft p) 0.001;
          n = py_or (roughness_coefficient p) 0.3;
          n = max 0.02 (min 0.8 n)
      in bind_err (math_sqrt S) (\<lambda>S_root.
         bind_err (py_div (n * L) S_root) (\<lambda>x.
         bind_err (py_pow x 0.467) (\<lambda>x_pow.
         Inr (max (1.44 * x_pow) 5.0)))))"

text \<open>
  The SCS time of concentration as the specification words it: retention
  \<open>R = 1000/CN - 9\<close>, lag \<open>L^0.8 * (R + 1)^0.7 / (1900 * sqrt S_pct)\<close> with the slope
  in percent, and \<open>TC = 1.67 * lag * 60\<close>, for a curve number clamped to 30..98.
\<close>

definition spec_scs_tc :: "real \<Rightarrow> real \<Rightarrow> real \<Rightarrow> real" where
  "spec_scs_tc L S CN =
     (let CN = max 30 (min 98 CN);
          R = 1000 / CN - 9;
          S_pct = S * 100;
          lag = L powr 0.8 * (R + 1) powr 0.7 / (1900 * sqrt S_pct)
      in 1.67 * lag * 60)"

subsection \<open>Comparative statistics\<close>

text \<open>\<open>statistics.mean\<close>, \<open>statistics.stdev\<close> and \<open>statistics.median\<close>.\<close>

definition mean :: "real list \<Rightarrow> error + real" where
  "mean xs = (if xs = [] then Inl StatisticsError
              else Inr (sum_list xs / real (length xs)))"

definition stdev :: "real list \<Rightarrow> error + real" where
  "stdev xs =
     (if length xs < 2 then Inl StatisticsError
      else (let m = sum_list xs / real (length xs);
                ss = (\<Sum>x\<leftarrow>xs. (x - m)\<^sup>2)
            in Inr (sqrt (ss / real (length xs - 1)))))"

definition median :: "real list \<Rightarrow> error + real" where
  "median xs =
     (let s = sort xs; n = length s in
      if n = 0 then Inl StatisticsError
      else if n mod 2 = 1 then Inr (s ! (n div 2))
      else Inr ((s ! (n div 2 - 1) + s ! (n div 2)) / 2))"

record 'i TCResults =
  subbasin_id :: 'i
  parameters :: TCParameters
  tc_kirpich_min :: "real option"
  tc_faa_min :: "real option"
  tc_scs_min :: "real option"
  tc_kerby_min :: "real option"
  tc_average_min :: "real option"
  tc_std_dev_min :: "real option"
  tc_recommended_min :: "real option"

text \<open>The constructor call of the source: every result field defaults to \<open>None\<close>.\<close>

definition TCResults_new :: "'i \<Rightarrow> TCParameters \<Rightarrow> 'i TCResults" where
  "TCResults_new i p =
     \<lparr>subbasin_id = i, parameters = p,
      tc_kirpich_min = None, tc_faa_min = None, tc_scs_min = None, tc_kerby_min = None,
      tc_average_min = None, tc_std_dev_min = None, tc_recommended_min = None\<rparr>"

definition method_map :: "'i TCResults \<Rightarrow> string \<Rightarrow> real option" where
  "method_map r method =
     (if method = ''kirpich'' then tc_kirpich_min r
      else if method = ''faa'' then tc_faa_min r
      else if method = ''scs'' then tc_scs_min r
      else if method = ''kerby'' then tc_kerby_min r
      else None)"

fun valid_results :: "'i TCResults \<Rightarrow> string list \<Rightarrow> real list" where
  "valid_results r [] = []"
| "valid_results r (method # ms) =
     (case method_map r method of
        None \<Rightarrow> valid_results r ms
      | Some tc_value \<Rightarrow>
          if tc_value > 0 then tc_value # valid_results r ms else valid_results r ms)"

definition calculate_statistics :: "'i TCResults \<Rightarrow> string list \<Rightarrow> error + 'i TCResults" where
  "calculate_statistics r selected_methods =
     (let vs = valid_results r selected_methods in
      if length vs \<ge> 2 then
        (case mean vs of
           Inl e \<Rightarrow> Inl e
         | Inr avg \<Rightarrow>
            (case (if length vs > 1 then stdev vs else Inr 0) of
               Inl e \<Rightarrow> Inl e
             | Inr sd \<Rightarrow>
                (case median vs of
                   Inl e \<Rightarrow> Inl e
                 | Inr med \<Rightarrow>
                     Inr (r\<lparr>tc_average_min := Some avg, tc_std_dev_min := Some sd,
                            tc_recommended_min := Some med\<rparr>))))
      else if length vs = 1 then
        Inr (r\<lparr>tc_average_min := Some (vs ! 0), tc_std_dev_min := Some 0,
               tc_recommended_min := Some (vs ! 0)\<rparr>)
      else Inr r)"

section \<open>Stand-alone NRCS calculator (\<open>tc_calculator_v6_final.py\<close>)\<close>

text \<open>
  \<open>TCCalculatorWorker.calculate_basin_slope\<close>: the mean of the slope raster over the
  basin in percent, \<open>0\<close> when the statistics hold no mean (\<open>None\<close>), floored at 1
  percent; the exception handler of the function returns 1 as well.
\<close>

definition calculate_basin_slope :: "real option \<Rightarrow> real" where
  "calculate_basin_slope mean_stat =
     (let avg_slope = (case mean_stat of None \<Rightarrow> 0 | Some m \<Rightarrow> m)
      in max avg_slope 1.0)"

text \<open>
  Steps 1, 4 and 5 of \<open>TCCalculatorWorker.calculate_basin_tc\<close>, as a function of the
  hydraulic length in feet (the result of \<open>calculate_hydraulic_length\<close>), the mean of
  the slope raster and the curve number read from the basin (\<open>cn_attr\<close>). The result is
  the \<open>tc_minutes\<close> entry; \<open>None\<close> stands for the exception handler, which returns
  \<open>None\<close>: \<open>1000 / curve_number\<close> divides by zero, and \<open>math.pow\<close> raises on a negative
  base.
\<close>

definition calculate_basin_tc :: "real \<Rightarrow> real option \<Rightarrow> real \<Rightarrow> real option" where
  "calculate_basin_tc hydraulic_length mean_stat cn_attr =
     (let avg_slope = calculate_basin_slope mean_stat in
      if cn_attr = 0 then None
      else
        (let S = (1000 / cn_attr) - 10 in
         if hydraulic_length > 0 \<and> avg_slope > 0 then
           (if S + 1 < 0 then None
            else
              (let lag_hours = (hydraulic_length powr 0.8 * (S + 1) powr 0.7)
                                 / (1900 * avg_slope powr 0.5);
                   lag_minutes = lag_hours * 60;
                   tc_minutes = lag_minutes / 0.6
               in Some tc_minutes))
         else Some 0))"

section \<open>Properties of the soil-group parsers\<close>

lemma lower_valid:
  "lower ''A'' = ''a''" "lower ''B'' = ''b''" "lower ''C'' = ''c''" "lower ''D'' = ''d''"
  by code_simp+

lemma parse_cn_fixed:
  "parse_soil_group_cn ''a'' = ''a''" "parse_soil_group_cn ''b'' = ''b''"
  "parse_soil_group_cn ''c'' = ''c''" "parse_soil_group_cn ''d'' = ''d''"
  by code_simp+

lemma parse_c_fixed:
  "parse_soil_group_c (Some ''a'') = Some ''a''" "parse_soil_group_c (Some ''b'') = Some ''b''"
  "parse_soil_group_c (Some ''c'') = Some ''c''" "parse_soil_group_c (Some ''d'') = Some ''d''"
  "parse_soil_group_c None = None"
  by code_simp+

lemma parse_cn_range:
  "parse_soil_group_cn raw \<in> {''a'', ''b'', ''c'', ''d''}"
  unfolding parse_soil_group_cn_def valid_groups_def Let_def
  using lower_valid by auto

lemma parse_c_range:
  "parse_soil_group_c raw \<in> {None, Some ''a'', Some ''b'', Some ''c'', Some ''d''}"
  unfolding parse_soil_group_c_def valid_groups_def Let_def
  using lower_valid by (auto split: option.splits)

lemma parse_cn_idem: "parse_soil_group_cn (parse_soil_group_cn raw) = parse_soil_group_cn raw"
  using parse_cn_range [of raw] parse_cn_fixed by auto

lemma parse_c_idem: "parse_soil_group_c (parse_soil_group_c raw) = parse_soil_group_c raw"
  using parse_c_range [of raw] parse_c_fixed by auto

lemma split_on_no_sep: "sep \<notin> set s \<Longrightarrow> split_on sep s = [s]"
  by (induction s) auto

lemma split_on_ne: "split_on sep s \<noteq> []"
  by (induction s) (auto split: list.splits)

lemma split_on_hd: "\<exists>ps. split_on sep b = takeWhile (\<lambda>c. c \<noteq> sep) b # ps"
proof (induction b)
  case Nil
  show ?case by simp
next
  case (Cons c b)
  then obtain ps where "split_on sep b = takeWhile (\<lambda>c. c \<noteq> sep) b # ps" ..
  then show ?case by simp
qed

lemma split_on_first:
  "sep \<notin> set a \<Longrightarrow> split_on sep (a @ sep # b) = a # split_on sep b"
  by (induction a) (auto simp: split_on_ne split: list.splits)

lemma split_hsg_no_slash: "CHR ''/'' \<notin> set s \<Longrightarrow> split_hsg s = s"
  by (simp add: split_hsg_def)

lemma split_hsg_second:
  assumes "CHR ''/'' \<notin> set a"
  shows "split_hsg (a @ CHR ''/'' # b) = strip (takeWhile (\<lambda>c. c \<noteq> CHR ''/'') b)"
proof -
  obtain ps where ps: "split_on CHR ''/'' b = takeWhile (\<lambda>c. c \<noteq> CHR ''/'') b # ps"
    using split_on_hd [of "CHR ''/''" b] ..
  have "split_on CHR ''/'' (a @ CHR ''/'' # b) = a # takeWhile (\<lambda>c. c \<noteq> CHR ''/'') b # ps"
    using split_on_first [OF assms, of b] ps by simp
  then show ?thesis by (simp add: split_hsg_def Let_def)
qed

lemma strip_leading: "isspace c \<Longrightarrow> strip (c # s) = strip s"
  by (simp add: strip_def)

lemma strip_trailing:
  assumes "isspace c"
  shows "strip (s @ [c]) = strip s"
proof (cases "\<forall>x\<in>set s. isspace x")
  case True
  then have "dropWhile isspace s = []" by simp
  moreover have "dropWhile isspace (s @ [c]) = []" using True assms by simp
  ultimately show ?thesis by (simp only: strip_def)
next
  case False
  then have "dropWhile isspace (s @ [c]) = dropWhile isspace s @ [c]"
    by (simp add: dropWhile_append)
  then show ?thesis using assms by (simp add: strip_def)
qed

lemma strip_clean:
  assumes "s \<noteq> []" and "\<not> isspace (hd s)" and "\<not> isspace (last s)"
  shows "strip s = s"
proof -
  have a: "dropWhile isspace s = s" using assms(1,2) by (cases s) simp_all
  have "rev s \<noteq> []" and "\<not> isspace (hd (rev s))"
    using assms(1,3) by (simp_all add: hd_rev)
  then have "dropWhile isspace (rev s) = rev s" by (cases "rev s") simp_all
  then show ?thesis by (simp add: strip_def a)
qed

lemma parse_cn_letters:
  "parse_soil_group_cn raw =
     (if split_hsg (upper (strip raw)) = ''A'' then ''a''
      else if split_hsg (upper (strip raw)) = ''B'' then ''b''
      else if split_hsg (upper (strip raw)) = ''C'' then ''c''
      else ''d'')"
  using lower_valid by (auto simp: parse_soil_group_cn_def valid_groups_def Let_def)

lemma parse_c_letters:
  "parse_soil_group_c (Some raw) =
     (if raw = [] then None
      else if split_hsg (upper (strip raw)) = ''A'' then Some ''a''
      else if split_hsg (upper (strip raw)) = ''B'' then Some ''b''
      else if split_hsg (upper (strip raw)) = ''C'' then Some ''c''
      else if split_hsg (upper (strip raw)) = ''D'' then Some ''d''
      else None)"
  using lower_valid by (auto simp: parse_soil_group_c_def valid_groups_def Let_def)

lemma normalizer_examples:
  "parse_soil_group_cn '' a '' = ''a''" "parse_soil_group_c (Some '' a '') = Some ''a''"
  "parse_soil_group_cn ''D/A'' = ''a''" "parse_soil_group_c (Some ''D/A'') = Some ''a''"
  "parse_soil_group_cn '' b / c '' = ''c''" "parse_soil_group_c (Some '' b / c '') = Some ''c''"
  "parse_soil_group_cn ''A/B/C'' = ''b''" "parse_soil_group_c (Some ''A/B/C'') = Some ''b''"
  "parse_soil_group_cn ''b'' = ''b''" "parse_soil_group_c (Some ''c'') = Some ''c''"
  "parse_soil_group_cn [] = ''d''" "parse_soil_group_c (Some []) = None"
  "parse_soil_group_c None = None"
  "strip [CHR 0x09, CHR ''a'', CHR '' '', CHR ''b'', CHR 0x0A] = ''a b''"
  "upper ''b/d x'' = ''B/D X''"
  by code_simp+

lemma rstrip_keeps_head:
  assumes n: "\<not> P y"
  shows "\<exists>zs. rev (dropWhile P (rev (y # ys))) = y # zs"
proof -
  have "dropWhile P (rev ys @ [y]) = dropWhile P (rev ys) @ [y] \<or> dropWhile P (rev ys @ [y]) = [y]"
    using n by (simp add: dropWhile_append)
  then show ?thesis
  proof
    assume "dropWhile P (rev ys @ [y]) = dropWhile P (rev ys) @ [y]"
    then have "rev (dropWhile P (rev (y # ys))) = y # rev (dropWhile P (rev ys))" by simp
    then show ?thesis by blast
  next
    assume "dropWhile P (rev ys @ [y]) = [y]"
    then have "rev (dropWhile P (rev (y # ys))) = y # []" by simp
    then show ?thesis by blast
  qed
qed

lemma lstrip_rstrip:
  "dropWhile P (rev (dropWhile P (rev (dropWhile P s)))) = rev (dropWhile P (rev (dropWhile P s)))"
proof (cases "dropWhile P s")
  case Nil
  then show ?thesis by (simp del: dropWhile_eq_Nil_conv)
next
  case (Cons y ys)
  then have n: "\<not> P y" by (metis hd_dropWhile list.distinct(1) list.sel(1))
  have "\<exists>zs. rev (dropWhile P (rev (y # ys))) = y # zs"
    using n by (rule rstrip_keeps_head)
  then obtain zs where z: "rev (dropWhile P (rev (y # ys))) = y # zs" ..
  have "dropWhile P (y # zs) = y # zs" using n by simp
  then show ?thesis by (simp only: Cons z)
qed

lemma strip_idem: "strip (strip s) = strip s"
  unfolding strip_def by (simp add: lstrip_rstrip)


text \<open>
  Claim C5. The soil-group normalizer uppercases and trims the text, takes the part
  after the slash of a split group (the second part, trimmed) and validates it against
  A, B, C and D: the split groups A/D, B/D and C/D give \<open>d\<close>, D/A gives \<open>a\<close>, \<open>a\<close>
  gives \<open>a\<close> with or without surrounding blanks, and \<open>Water\<close> fails the validation
  (the Rational-C parser returns \<open>None\<close> for it, the curve-number parser its default
  \<open>d\<close>). Trimming removes leading and trailing white space and nothing else; a text
  without a slash is validated as it is. Every result is one of the four letters (or
  \<open>None\<close>), and parsing a result again returns it unchanged.
\<close>

theorem soil_group_normalizer:
  "parse_soil_group_cn ''A/D'' = ''d'' \<and> parse_soil_group_cn ''B/D'' = ''d'' \<and>
   parse_soil_group_cn ''C/D'' = ''d'' \<and> parse_soil_group_cn ''a'' = ''a'' \<and>
   parse_soil_group_c (Some ''A/D'') = Some ''d'' \<and> parse_soil_group_c (Some ''B/D'') = Some ''d'' \<and>
   parse_soil_group_c (Some ''C/D'') = Some ''d'' \<and> parse_soil_group_c (Some ''a'') = Some ''a'' \<and>
   split_hsg (upper (strip ''Water'')) \<notin> set valid_groups \<and>
   parse_soil_group_c (Some ''Water'') = None \<and> parse_soil_group_cn ''Water'' = ''d'' \<and>
   parse_soil_group_cn raw \<in> {''a'', ''b'', ''c'', ''d''} \<and>
   parse_soil_group_c raw' \<in> {None, Some ''a'', Some ''b'', Some ''c'', Some ''d''} \<and>
   parse_soil_group_cn (parse_soil_group_cn raw) = parse_soil_group_cn raw \<and>
   parse_soil_group_c (parse_soil_group_c raw') = parse_soil_group_c raw' \<and>
   parse_soil_group_cn '' a '' = ''a'' \<and> parse_soil_group_c (Some '' a '') = Some ''a'' \<and>
   parse_soil_group_cn ''D/A'' = ''a'' \<and> parse_soil_group_c (Some ''D/A'') = Some ''a'' \<and>
   parse_soil_group_cn '' b / c '' = ''c'' \<and> parse_soil_group_c (Some '' b / c '') = Some ''c'' \<and>
   parse_soil_group_cn ''A/B/C'' = ''b'' \<and> parse_soil_group_c (Some ''A/B/C'') = Some ''b'' \<and>
   parse_soil_group_cn ''b'' = ''b'' \<and> parse_soil_group_c (Some ''c'') = Some ''c'' \<and>
   parse_soil_group_cn [] = ''d'' \<and> parse_soil_group_c (Some []) = None \<and>
   parse_soil_group_c None = None \<and>
   strip [CHR 0x09, CHR ''a'', CHR '' '', CHR ''b'', CHR 0x0A] = ''a b'' \<and>
   upper ''b/d x'' = ''B/D X'' \<and>
   parse_soil_group_cn inp =
     (if split_hsg (upper (strip inp)) = ''A'' then ''a''
      else if split_hsg (upper (strip inp)) = ''B'' then ''b''
      else if split_hsg (upper (strip inp)) = ''C'' then ''c''
      else ''d'') \<and>
   parse_soil_group_c (Some inp) =
     (if inp = [] then None
      else if split_hsg (upper (strip inp)) = ''A'' then Some ''a''
      else if split_hsg (upper (strip inp)) = ''B'' then Some ''b''
      else if split_hsg (upper (strip inp)) = ''C'' then Some ''c''
      else if split_hsg (upper (strip inp)) = ''D'' then Some ''d''
      else None) \<and>
   (CHR ''/'' \<notin> set s \<longrightarrow> split_hsg s = s) \<and>
   (CHR ''/'' \<notin> set a \<longrightarrow>
      split_hsg (a @ CHR ''/'' # b) = strip (takeWhile (\<lambda>c. c \<noteq> CHR ''/'') b)) \<and>
   (isspace c \<longrightarrow> strip (c # s) = strip s \<and> strip (s @ [c]) = strip s) \<and>
   (s \<noteq> [] \<and> \<not> isspace (hd s) \<and> \<not> isspace (last s) \<longrightarrow> strip s = s) \<and>
   strip (strip s) = strip s"
proof -
  have ex: "parse_soil_group_cn ''A/D'' = ''d''" "parse_soil_group_cn ''B/D'' = ''d''"
    "parse_soil_group_cn ''C/D'' = ''d''" "parse_soil_group_cn ''Water'' = ''d''"
    "parse_soil_group_c (Some ''A/D'') = Some ''d''" "parse_soil_group_c (Some ''B/D'') = Some ''d''"
    "parse_soil_group_c (Some ''C/D'') = Some ''d''" "parse_soil_group_c (Some ''Water'') = None"
    "split_hsg (upper (strip ''Water'')) \<notin> set valid_groups"
    by code_simp+
  have sp1: "CHR ''/'' \<notin> set s \<longrightarrow> split_hsg s = s"
    by (simp add: split_hsg_no_slash)
  have sp2: "CHR ''/'' \<notin> set a \<longrightarrow>
      split_hsg (a @ CHR ''/'' # b) = strip (takeWhile (\<lambda>c. c \<noteq> CHR ''/'') b)"
    by (rule impI) (rule split_hsg_second)
  have st1: "isspace c \<longrightarrow> strip (c # s) = strip s \<and> strip (s @ [c]) = strip s"
    by (simp add: strip_leading strip_trailing)
  have st2: "s \<noteq> [] \<and> \<not> isspace (hd s) \<and> \<not> isspace (last s) \<longrightarrow> strip s = s"
    by (simp add: strip_clean)
  show ?thesis
    using ex(1,2,3) parse_cn_fixed(1) ex(5,6,7) parse_c_fixed(1) ex(9,8,4)
      parse_cn_range [of raw] parse_c_range [of "raw'"] parse_cn_idem [of raw] parse_c_idem [of "raw'"]
      normalizer_examples parse_cn_letters [of inp] parse_c_letters [of inp]
      sp1 sp2 st1 st2 strip_idem [of s]
    by (intro conjI)
qed

theorem soil_group_normalizer_witness:
  "parse_soil_group_cn (parse_soil_group_cn '' b/d '') = parse_soil_group_cn '' b/d '' \<and>
   parse_soil_group_c (parse_soil_group_c (Some ''Water'')) = parse_soil_group_c (Some ''Water'') \<and>
   parse_soil_group_cn '' b/d '' = ''d'' \<and> parse_soil_group_c (Some ''Water'') = None \<and>
   CHR ''/'' \<notin> set ''B'' \<and> split_hsg ''B/D'' = ''D'' \<and>
   isspace CHR '' '' \<and> strip '' a'' = ''a''"
proof -
  have b: "parse_soil_group_cn '' b/d '' = ''d''" by code_simp
  have d: "strip (takeWhile (\<lambda>c. c \<noteq> CHR ''/'') ''D'') = ''D''" by code_simp
  have a: "strip ''a'' = ''a''" by code_simp
  have sp: "isspace CHR '' ''" by code_simp
  have n: "CHR ''/'' \<notin> set ''B''" by simp
  note t = soil_group_normalizer [of "'' b/d ''" "Some ''Water''" "''a''" "''a''" "''B''" "''D''" "CHR '' ''"]
  have i1: "parse_soil_group_cn (parse_soil_group_cn '' b/d '') = parse_soil_group_cn '' b/d ''"
    using t by (elim conjE)
  have i2: "parse_soil_group_c (parse_soil_group_c (Some ''Water'')) = parse_soil_group_c (Some ''Water'')"
    using t by (elim conjE)
  have w: "parse_soil_group_c (Some ''Water'') = None"
    using t by (elim conjE)
  have s2: "CHR ''/'' \<notin> set ''B'' \<longrightarrow>
      split_hsg (''B'' @ CHR ''/'' # ''D'') = strip (takeWhile (\<lambda>c. c \<noteq> CHR ''/'') ''D'')"
    using t by (elim conjE)
  have s1: "isspace CHR '' '' \<longrightarrow>
      strip (CHR '' '' # ''a'') = strip ''a'' \<and> strip (''a'' @ [CHR '' '']) = strip ''a''"
    using t by (elim conjE)
  have "split_hsg ''B/D'' = ''D''" using s2 n d by simp
  moreover have "strip '' a'' = ''a''" using s1 sp a by simp
  ultimately show ?thesis using i1 i2 b w n sp by (intro conjI)
qed

section \<open>Properties of the composite aggregators\<close>

lemma composite_alt:
  "composite m z =
     (if (case m z of None \<Rightarrow> 0 | Some acc \<Rightarrow> total_area acc) > 0
      then Some ((case m z of None \<Rightarrow> 0 | Some acc \<Rightarrow> area_sum acc)
                 / (case m z of None \<Rightarrow> 0 | Some acc \<Rightarrow> total_area acc))
      else None)"
  by (simp add: composite_def split: option.splits)

lemma accumulate_total:
  "(case accumulate m z' a v z of None \<Rightarrow> 0 | Some acc \<Rightarrow> total_area acc) =
     (case m z of None \<Rightarrow> 0 | Some acc \<Rightarrow> total_area acc) + (if z' = z then a else 0)"
  by (simp add: accumulate_def Let_def split: option.splits)

lemma accumulate_sum:
  "(case accumulate m z' a v z of None \<Rightarrow> 0 | Some acc \<Rightarrow> area_sum acc) =
     (case m z of None \<Rightarrow> 0 | Some acc \<Rightarrow> area_sum acc) + (if z' = z then v * a else 0)"
  by (simp add: accumulate_def Let_def split: option.splits)

lemma cn_step_data:
  "data (cn_step L st f) =
     (case L (cn_key f) of None \<Rightarrow> data st
      | Some v \<Rightarrow> accumulate (data st) (zone_id f) (acres_from_sqft (area_sqft f)) v)"
  by (simp add: cn_step_def cn_key_def Let_def split: option.splits)

lemma c_step_data:
  "data (c_step T sl st f) =
     (case c_value_of T sl f of None \<Rightarrow> data st
      | Some v \<Rightarrow> accumulate (data st) (zone_id f) (acres_from_sqft (area_sqft f)) v)"
  by (simp add: c_step_def Let_def split: option.splits)

lemma fold_total:
  assumes step: "\<And>st f. data (step st f) =
     (case val f of None \<Rightarrow> data st
      | Some v \<Rightarrow> accumulate (data st) (zone_id f) (acres_from_sqft (area_sqft f)) v)"
  shows "(case data (foldl step st fs) z of None \<Rightarrow> 0 | Some acc \<Rightarrow> total_area acc) =
     (case data st z of None \<Rightarrow> 0 | Some acc \<Rightarrow> total_area acc) +
     (\<Sum>(v, a)\<leftarrow>concat (map (\<lambda>f. if zone_id f = z then
                   (case val f of None \<Rightarrow> [] | Some v \<Rightarrow> [(v, acres_from_sqft (area_sqft f))])
                   else []) fs). a)"
proof (induction fs arbitrary: st)
  case Nil
  show ?case by simp
next
  case (Cons f fs)
  show ?case
  proof (cases "val f")
    case None
    then have "data (step st f) = data st" by (simp add: step)
    then show ?thesis using Cons [of "step st f"] None by simp
  next
    case (Some v)
    then have d: "data (step st f) = accumulate (data st) (zone_id f) (acres_from_sqft (area_sqft f)) v"
      by (simp add: step)
    show ?thesis
      using Cons [of "step st f"] Some
      by (simp add: d accumulate_total)
  qed
qed

lemma fold_sum:
  assumes step: "\<And>st f. data (step st f) =
     (case val f of None \<Rightarrow> data st
      | Some v \<Rightarrow> accumulate (data st) (zone_id f) (acres_from_sqft (area_sqft f)) v)"
  shows "(case data (foldl step st fs) z of None \<Rightarrow> 0 | Some acc \<Rightarrow> area_sum acc) =
     (case data st z of None \<Rightarrow> 0 | Some acc \<Rightarrow> area_sum acc) +
     (\<Sum>(v, a)\<leftarrow>concat (map (\<lambda>f. if zone_id f = z then
                   (case val f of None \<Rightarrow> [] | Some v \<Rightarrow> [(v, acres_from_sqft (area_sqft f))])
                   else []) fs). v * a)"
proof (induction fs arbitrary: st)
  case Nil
  show ?case by simp
next
  case (Cons f fs)
  show ?case
  proof (cases "val f")
    case None
    then have "data (step st f) = data st" by (simp add: step)
    then show ?thesis using Cons [of "step st f"] None by simp
  next
    case (Some v)
    then have d: "data (step st f) = accumulate (data st) (zone_id f) (acres_from_sqft (area_sqft f)) v"
      by (simp add: step)
    show ?thesis
      using Cons [of "step st f"] Some
      by (simp add: d accumulate_sum)
  qed
qed


lemma fold_composite:
  assumes step: "\<And>st f. data (step st f) =
     (case val f of None \<Rightarrow> data st
      | Some v \<Rightarrow> accumulate (data st) (zone_id f) (acres_from_sqft (area_sqft f)) v)"
  shows "composite (data (foldl step agg_init fs)) z =
     area_weighted_mean (concat (map (\<lambda>f. if zone_id f = z then
                   (case val f of None \<Rightarrow> [] | Some v \<Rightarrow> [(v, acres_from_sqft (area_sqft f))])
                   else []) fs))"
  unfolding composite_alt fold_total [of step val, OF step] fold_sum [of step val, OF step]
  by (simp add: agg_init_def area_weighted_mean_def Let_def)

lemma cn_comp_mean:
  "cn_comp L fs z = spec_composite (\<lambda>f. Some (cn_key f)) L fs z"
  unfolding cn_comp_def cn_accumulate_def spec_composite_def
  by (simp add: fold_composite [of "cn_step L" "\<lambda>f. L (cn_key f)", OF cn_step_data]
      cong del: if_weak_cong)

lemma c_comp_mean:
  "c_comp T sl fs z =
     area_weighted_mean (concat (map (\<lambda>f. if zone_id f = z then
                   (case c_value_of T sl f of None \<Rightarrow> [] | Some v \<Rightarrow> [(v, acres_from_sqft (area_sqft f))])
                   else []) fs))"
  unfolding c_comp_def c_accumulate_def
  by (simp add: fold_composite [of "c_step T sl" "c_value_of T sl", OF c_step_data])

lemma mset_concat_map:
  "mset fs = mset fs' \<Longrightarrow> mset (concat (map g fs)) = mset (concat (map g fs'))"
proof -
  assume a: "mset fs = mset fs'"
  have "\<And>xs. mset (concat (map g xs)) = (\<Sum>x\<in>#mset xs. mset (g x))"
  proof -
    fix xs show "mset (concat (map g xs)) = (\<Sum>x\<in>#mset xs. mset (g x))"
      by (induction xs) simp_all
  qed
  then show ?thesis using a by simp
qed

lemma awm_perm:
  assumes "mset fs = mset fs'"
  shows "area_weighted_mean (concat (map g fs)) = area_weighted_mean (concat (map g fs'))"
proof -
  have m: "mset (concat (map g fs)) = mset (concat (map g fs'))"
    using assms by (rule mset_concat_map)
  have s: "sum_list (map h (concat (map g fs))) = sum_list (map h (concat (map g fs')))"
    for h :: "real \<times> real \<Rightarrow> real"
  proof -
    have "sum_mset (image_mset h (mset (concat (map g fs)))) =
          sum_mset (image_mset h (mset (concat (map g fs'))))"
      by (simp only: m)
    then show ?thesis by (simp only: mset_map [symmetric] sum_mset_sum_list)
  qed
  show ?thesis unfolding area_weighted_mean_def by (simp only: s)
qed


lemma c_value_of_key:
  "c_value_of T sl f = (case c_key sl f of None \<Rightarrow> Some 0.95 | Some k \<Rightarrow> T k)"
  by (simp add: c_value_of_def c_key_def split: option.splits)

text \<open>
  Claim C1, as amended. The composite the curve-number aggregator reports for a zone is
  the area-weighted mean \<open>sum (value * area) / sum area\<close> over exactly the features of
  the zone whose (land use, normalized soil group) key is found in the lookup table.
  The Rational-C aggregator reports the same mean over the features of the zone whose
  key is found, together with the features whose soil group is not recognised, which
  enter with the value 0.95. Either result is undefined when the total area is not
  positive, and is the same for every permutation of the input features.
\<close>

theorem composite_area_weighted_mean:
  "cn_comp L fs z = spec_composite (\<lambda>f. Some (cn_key f)) L fs z \<and>
   c_comp T sl fs z =
     area_weighted_mean
       (concat (map (\<lambda>f. if zone_id f = z then
                            (case c_key sl f of
                               None \<Rightarrow> [(0.95, acres_from_sqft (area_sqft f))]
                             | Some k \<Rightarrow> (case T k of
                                           None \<Rightarrow> []
                                         | Some v \<Rightarrow> [(v, acres_from_sqft (area_sqft f))]))
                          else []) fs)) \<and>
   (mset fs = mset fs' \<longrightarrow>
      cn_comp L fs z = cn_comp L fs' z \<and> c_comp T sl fs z = c_comp T sl fs' z)"
proof (intro conjI impI)
  show "cn_comp L fs z = spec_composite (\<lambda>f. Some (cn_key f)) L fs z"
    by (rule cn_comp_mean)
next
  have "(\<lambda>f. if zone_id f = z then
            (case c_value_of T sl f of None \<Rightarrow> [] | Some v \<Rightarrow> [(v, acres_from_sqft (area_sqft f))])
          else []) =
        (\<lambda>f. if zone_id f = z then
            (case c_key sl f of
               None \<Rightarrow> [(0.95, acres_from_sqft (area_sqft f))]
             | Some k \<Rightarrow> (case T k of
                           None \<Rightarrow> []
                         | Some v \<Rightarrow> [(v, acres_from_sqft (area_sqft f))]))
          else [])"
    by (rule ext) (simp add: c_value_of_key split: option.splits)
  then show "c_comp T sl fs z =
     area_weighted_mean
       (concat (map (\<lambda>f. if zone_id f = z then
                            (case c_key sl f of
                               None \<Rightarrow> [(0.95, acres_from_sqft (area_sqft f))]
                             | Some k \<Rightarrow> (case T k of
                                           None \<Rightarrow> []
                                         | Some v \<Rightarrow> [(v, acres_from_sqft (area_sqft f))]))
                          else []) fs))"
    by (simp only: c_comp_mean)
next
  assume p: "mset fs = mset fs'"
  show "cn_comp L fs z = cn_comp L fs' z"
    unfolding cn_comp_mean spec_composite_def by (rule awm_perm [OF p])
next
  assume p: "mset fs = mset fs'"
  show "c_comp T sl fs z = c_comp T sl fs' z"
    unfolding c_comp_mean by (rule awm_perm [OF p])
qed

lemma ex_keys:
  "cn_key \<lparr>zone_id = ''A'', lu_attr = ''res'', soil_attr = Some ''A'', area_sqft = 10\<rparr> = (''res'', ''a'')"
  "cn_key \<lparr>zone_id = ''A'', lu_attr = ''res'', soil_attr = Some ''B'', area_sqft = 10\<rparr> = (''res'', ''b'')"
  by code_simp+

theorem composite_area_weighted_mean_witness:
  "mset [\<lparr>zone_id = ''A'', lu_attr = ''res'', soil_attr = Some ''A'', area_sqft = 10\<rparr>,
         \<lparr>zone_id = ''A'', lu_attr = ''res'', soil_attr = Some ''B'', area_sqft = 10\<rparr>] =
   mset [\<lparr>zone_id = ''A'', lu_attr = ''res'', soil_attr = Some ''B'', area_sqft = 10\<rparr>,
         \<lparr>zone_id = ''A'', lu_attr = ''res'', soil_attr = Some ''A'', area_sqft = 10\<rparr>] \<and>
   cn_comp [(''res'', ''a'') \<mapsto> 80, (''res'', ''b'') \<mapsto> 85, (''res'', ''c'') \<mapsto> 90, (''res'', ''d'') \<mapsto> 95]
     [\<lparr>zone_id = ''A'', lu_attr = ''res'', soil_attr = Some ''A'', area_sqft = 10\<rparr>,
      \<lparr>zone_id = ''A'', lu_attr = ''res'', soil_attr = Some ''B'', area_sqft = 10\<rparr>] ''A'' = Some 82.5 \<and>
   cn_comp [(''res'', ''a'') \<mapsto> 80, (''res'', ''b'') \<mapsto> 85, (''res'', ''c'') \<mapsto> 90, (''res'', ''d'') \<mapsto> 95]
     [\<lparr>zone_id = ''A'', lu_attr = ''res'', soil_attr = Some ''B'', area_sqft = 10\<rparr>,
      \<lparr>zone_id = ''A'', lu_attr = ''res'', soil_attr = Some ''A'', area_sqft = 10\<rparr>] ''A'' = Some 82.5"
proof -
  let ?f1 = "\<lparr>zone_id = ''A'', lu_attr = ''res'', soil_attr = Some ''A'', area_sqft = 10\<rparr>"
  let ?f2 = "\<lparr>zone_id = ''A'', lu_attr = ''res'', soil_attr = Some ''B'', area_sqft = 10\<rparr>"
  let ?L = "[(''res'', ''a'') \<mapsto> 80, (''res'', ''b'') \<mapsto> 85, (''res'', ''c'') \<mapsto> 90, (''res'', ''d'') \<mapsto> (95::real)]"
  have p: "mset [?f1, ?f2] = mset [?f2, ?f1]" by simp
  have t: "cn_comp ?L [?f1, ?f2] ''A'' = spec_composite (\<lambda>f. Some (cn_key f)) ?L [?f1, ?f2] ''A''"
    and q: "cn_comp ?L [?f1, ?f2] ''A'' = cn_comp ?L [?f2, ?f1] ''A''"
    using composite_area_weighted_mean [of ?L "[?f1, ?f2]" "''A''" Map.empty Slope_0_2 "[?f2, ?f1]"] p
    by blast+
  have v: "spec_composite (\<lambda>f. Some (cn_key f)) ?L [?f1, ?f2] ''A'' = Some 82.5"
    by (simp add: spec_composite_def ex_keys area_weighted_mean_def acres_from_sqft_def)
  show ?thesis using p t q v by simp
qed

text \<open>
  The claim as stated fails for the Rational-C aggregator: with an empty lookup table
  no key is found, yet a feature with soil group \<open>Water\<close> gives the composite 0.95.
\<close>

theorem c_composite_fallback_counterexample:
  "c_comp Map.empty Slope_0_2
     [\<lparr>zone_id = ''A'', lu_attr = ''res'', soil_attr = Some ''Water'', area_sqft = 43560\<rparr>] ''A''
     = Some 0.95 \<and>
   spec_composite (c_key Slope_0_2) Map.empty
     [\<lparr>zone_id = ''A'', lu_attr = ''res'', soil_attr = Some ''Water'', area_sqft = 43560\<rparr>] ''A''
     = None"
proof -
  have k: "c_key Slope_0_2 \<lparr>zone_id = ''A'', lu_attr = ''res'', soil_attr = Some ''Water'', area_sqft = 43560\<rparr> = None"
    by code_simp
  show ?thesis
    by (simp add: c_comp_mean c_value_of_key k spec_composite_def area_weighted_mean_def
        acres_from_sqft_def)
qed

subsection \<open>Unrecognised soil groups\<close>

lemma unrecognized_cn:
  "split_hsg (upper (strip raw)) \<notin> set valid_groups \<Longrightarrow> parse_soil_group_cn (strip raw) = ''d''"
  by (simp add: parse_soil_group_cn_def strip_idem Let_def)

lemma unrecognized_c:
  "split_hsg (upper (strip (py_str attr))) \<notin> set valid_groups \<Longrightarrow> parse_soil_group_c attr = None"
  by (cases attr) (simp_all add: parse_soil_group_c_def py_str_def Let_def)

lemma accumulate_same:
  "accumulate m z a v z =
     Some \<lparr>total_area = (case m z of None \<Rightarrow> 0 | Some acc \<Rightarrow> total_area acc) + a,
           area_sum = (case m z of None \<Rightarrow> 0 | Some acc \<Rightarrow> area_sum acc) + v * a\<rparr>"
  by (simp add: accumulate_def Let_def split: option.splits)

lemma add_row_None:
  "add_row m row (k, g) = None \<longleftrightarrow>
     m (k, g) = None \<and> \<not> (g \<in> set [''a'', ''b'', ''c'', ''d''] \<and> k = lower (strip (row_landuse row)))"
  by (auto simp: add_row_def Let_def)

lemma fold_add_row_None:
  "foldl add_row m rows (k, g) = None \<longleftrightarrow>
     m (k, g) = None \<and>
     \<not> (g \<in> set [''a'', ''b'', ''c'', ''d''] \<and> k \<in> set (map (\<lambda>r. lower (strip (row_landuse r))) rows))"
proof (induction rows arbitrary: m)
  case Nil
  show ?case by simp
next
  case (Cons row rows)
  show ?case
    unfolding foldl_Cons Cons [of "add_row m row"] add_row_None by auto
qed

lemma build_cn_lookup_d:
  "build_cn_lookup rows (k, ''d'') = None \<longleftrightarrow>
     k \<notin> set (map (\<lambda>r. lower (strip (row_landuse r))) rows)"
  by (simp add: build_cn_lookup_def fold_add_row_None)

text \<open>
  Claim C6, as amended. For a feature whose soil group is not recognised (its text
  fails the validation against A, B, C and D after the split resolution), the
  curve-number aggregator looks up the land use under soil group \<open>d\<close>: on a miss the
  feature is skipped and the state is unchanged, on a hit its area and the product are
  added to the zone. In a lookup dictionary built from the rows of a table the lookup
  misses exactly when the land use has no row. The Rational-C aggregator makes no
  lookup, takes the value 0.95 and always adds the area and the product to the zone.
\<close>

theorem unrecognized_soil_fallback:
  assumes unrec: "split_hsg (upper (strip (py_str (soil_attr f)))) \<notin> set valid_groups"
  shows "cn_key f = (cn_landuse_code f, ''d'') \<and>
         (cn_lookup (cn_landuse_code f, ''d'') = None \<longrightarrow> cn_step cn_lookup st f = st) \<and>
         (\<forall>v. cn_lookup (cn_landuse_code f, ''d'') = Some v \<longrightarrow>
            data (cn_step cn_lookup st f) (zone_id f) =
              Some \<lparr>total_area = (case data st (zone_id f) of None \<Rightarrow> 0 | Some acc \<Rightarrow> total_area acc)
                                    + acres_from_sqft (area_sqft f),
                    area_sum = (case data st (zone_id f) of None \<Rightarrow> 0 | Some acc \<Rightarrow> area_sum acc)
                                    + v * acres_from_sqft (area_sqft f)\<rparr>) \<and>
         c_key sl f = None \<and>
         c_value_of c_lookup sl f = Some 0.95 \<and>
         data (c_step c_lookup sl st' f) (zone_id f) =
              Some \<lparr>total_area = (case data st' (zone_id f) of None \<Rightarrow> 0 | Some acc \<Rightarrow> total_area acc)
                                    + acres_from_sqft (area_sqft f),
                    area_sum = (case data st' (zone_id f) of None \<Rightarrow> 0 | Some acc \<Rightarrow> area_sum acc)
                                    + 0.95 * acres_from_sqft (area_sqft f)\<rparr> \<and>
         (build_cn_lookup rows (cn_landuse_code f, ''d'') = None \<longleftrightarrow>
            cn_landuse_code f \<notin> set (map (\<lambda>r. lower (strip (row_landuse r))) rows))"
proof -
  have k: "cn_key f = (cn_landuse_code f, ''d'')"
    using unrec by (simp add: cn_key_def cn_soil_group_raw_def unrecognized_cn)
  have p: "parse_soil_group_c (soil_attr f) = None"
    using unrec by (rule unrecognized_c)
  have miss: "cn_lookup (cn_landuse_code f, ''d'') = None \<longrightarrow> cn_step cn_lookup st f = st"
    using k by (simp add: cn_step_def cn_key_def Let_def)
  have hit: "\<forall>v. cn_lookup (cn_landuse_code f, ''d'') = Some v \<longrightarrow>
            data (cn_step cn_lookup st f) (zone_id f) =
              Some \<lparr>total_area = (case data st (zone_id f) of None \<Rightarrow> 0 | Some acc \<Rightarrow> total_area acc)
                                    + acres_from_sqft (area_sqft f),
                    area_sum = (case data st (zone_id f) of None \<Rightarrow> 0 | Some acc \<Rightarrow> area_sum acc)
                                    + v * acres_from_sqft (area_sqft f)\<rparr>"
    using k by (simp add: cn_step_data accumulate_same)
  have ck: "c_key sl f = None" using p by (simp add: c_key_def)
  have cv: "c_value_of c_lookup sl f = Some 0.95" using p by (simp add: c_value_of_def)
  have cs: "data (c_step c_lookup sl st' f) (zone_id f) =
              Some \<lparr>total_area = (case data st' (zone_id f) of None \<Rightarrow> 0 | Some acc \<Rightarrow> total_area acc)
                                    + acres_from_sqft (area_sqft f),
                    area_sum = (case data st' (zone_id f) of None \<Rightarrow> 0 | Some acc \<Rightarrow> area_sum acc)
                                    + 0.95 * acres_from_sqft (area_sqft f)\<rparr>"
    by (simp add: c_step_data cv accumulate_same)
  have bl: "build_cn_lookup rows (cn_landuse_code f, ''d'') = None \<longleftrightarrow>
            cn_landuse_code f \<notin> set (map (\<lambda>r. lower (strip (row_landuse r))) rows)"
    by (rule build_cn_lookup_d)
  show ?thesis using k miss hit ck cv cs bl by (intro conjI)
qed

theorem unrecognized_soil_fallback_witness:
  "split_hsg (upper (strip (py_str (soil_attr
      \<lparr>zone_id = ''A'', lu_attr = ''res'', soil_attr = Some ''X'', area_sqft = 43560\<rparr>))))
     \<notin> set valid_groups \<and>
   cn_key \<lparr>zone_id = ''A'', lu_attr = ''res'', soil_attr = Some ''X'', area_sqft = 43560\<rparr>
     = (''res'', ''d'') \<and>
   data (cn_step
           (build_cn_lookup
              [\<lparr>row_landuse = ''res'', row_a = 80, row_b = 85, row_c = 90, row_d = 95\<rparr>])
           agg_init
           \<lparr>zone_id = ''A'', lu_attr = ''res'', soil_attr = Some ''X'', area_sqft = 43560\<rparr>) ''A''
     = Some \<lparr>total_area = 1, area_sum = 95\<rparr> \<and>
   data (c_step [(''res'', ''d_0-2%'') \<mapsto> 0.3] Slope_0_2 agg_init
           \<lparr>zone_id = ''A'', lu_attr = ''res'', soil_attr = Some ''X'', area_sqft = 43560\<rparr>) ''A''
     = Some \<lparr>total_area = 1, area_sum = 0.95\<rparr>"
proof -
  let ?f = "\<lparr>zone_id = ''A'', lu_attr = ''res'', soil_attr = Some ''X'', area_sqft = 43560\<rparr>"
  let ?rows = "[\<lparr>row_landuse = ''res'', row_a = 80, row_b = 85, row_c = 90, row_d = 95\<rparr>]"
  have u: "split_hsg (upper (strip (py_str (soil_attr ?f)))) \<notin> set valid_groups" by code_simp
  have l: "cn_landuse_code ?f = ''res''" by code_simp
  have r: "lower (strip ''res'') = ''res''" by code_simp
  have t: "build_cn_lookup ?rows (''res'', ''d'') = Some 95"
    by (simp add: build_cn_lookup_def add_row_def r Let_def)
  show ?thesis
    using unrecognized_soil_fallback [OF u, where cn_lookup = "build_cn_lookup ?rows"
        and st = agg_init and sl = Slope_0_2 and c_lookup = "[(''res'', ''d_0-2%'') \<mapsto> 0.3]"
        and st' = agg_init and rows = ?rows] u
    by (simp add: l t agg_init_def acres_from_sqft_def)
qed

text \<open>
  The area of an unrecognised fragment does not always count in the curve-number
  aggregator: when the lookup table has no row for the land use of the fragment, the
  feature is skipped and the zone receives nothing. Here the table has the single row
  \<open>com\<close> and the fragment has the land use \<open>res\<close>.
\<close>

theorem cn_unrecognized_miss_counterexample:
  "split_hsg (upper (strip (py_str (soil_attr
      \<lparr>zone_id = ''A'', lu_attr = ''res'', soil_attr = Some ''X'', area_sqft = 43560\<rparr>))))
     \<notin> set valid_groups \<and>
   cn_step
      (build_cn_lookup
         [\<lparr>row_landuse = ''com'', row_a = 89, row_b = 92, row_c = 94, row_d = 95\<rparr>])
      agg_init
      \<lparr>zone_id = ''A'', lu_attr = ''res'', soil_attr = Some ''X'', area_sqft = 43560\<rparr> = agg_init \<and>
   data (cn_accumulate
      (build_cn_lookup
         [\<lparr>row_landuse = ''com'', row_a = 89, row_b = 92, row_c = 94, row_d = 95\<rparr>])
      [\<lparr>zone_id = ''A'', lu_attr = ''res'', soil_attr = Some ''X'', area_sqft = 43560\<rparr>]) ''A'' = None"
proof -
  let ?f = "\<lparr>zone_id = ''A'', lu_attr = ''res'', soil_attr = Some ''X'', area_sqft = 43560\<rparr>"
  let ?rows = "[\<lparr>row_landuse = ''com'', row_a = 89, row_b = 92, row_c = 94, row_d = 95\<rparr>]"
  have u: "split_hsg (upper (strip (py_str (soil_attr ?f)))) \<notin> set valid_groups" by code_simp
  have k: "cn_landuse_code ?f = ''res''" "parse_soil_group_cn (cn_soil_group_raw ?f) = ''d''"
    by code_simp+
  have r: "lower (strip ''com'') = ''com''" by code_simp
  have t: "build_cn_lookup ?rows (''res'', ''d'') = None"
    by (simp add: build_cn_lookup_d r)
  have s: "cn_step (build_cn_lookup ?rows) agg_init ?f = agg_init"
    by (simp add: cn_step_def k t Let_def)
  show ?thesis using u s by (simp add: cn_accumulate_def agg_init_def)
qed

subsection \<open>Zones without contributing area\<close>

lemma accumulate_None:
  "accumulate m z' a v z = None \<longleftrightarrow> m z = None \<and> z' \<noteq> z"
  by (simp add: accumulate_def Let_def)

lemma fold_None:
  assumes step: "\<And>st f. data (step st f) =
     (case val f of None \<Rightarrow> data st
      | Some v \<Rightarrow> accumulate (data st) (zone_id f) (acres_from_sqft (area_sqft f)) v)"
  shows "data (foldl step st fs) z = None \<longleftrightarrow>
         data st z = None \<and> (\<forall>f\<in>set fs. zone_id f = z \<longrightarrow> val f = None)"
proof (induction fs arbitrary: st)
  case Nil
  show ?case by simp
next
  case (Cons f fs)
  show ?case
  proof (cases "val f")
    case None
    then have "data (step st f) = data st" by (simp add: step)
    then show ?thesis using Cons [of "step st f"] None by simp
  next
    case (Some v)
    then have d: "data (step st f) = accumulate (data st) (zone_id f) (acres_from_sqft (area_sqft f)) v"
      by (simp add: step)
    show ?thesis
      using Cons [of "step st f"] Some by (auto simp: d accumulate_None)
  qed
qed

lemma cn_step_zones:
  "d_zone ` set (detailed_records (cn_step L st f)) =
     d_zone ` set (detailed_records st) \<union> (if L (cn_key f) = None then {} else {zone_id f})"
  by (simp add: cn_step_def cn_key_def Let_def split: option.splits)

lemma cn_fold_zones:
  "z \<in> d_zone ` set (detailed_records (foldl (cn_step L) st fs)) \<longleftrightarrow>
     z \<in> d_zone ` set (detailed_records st) \<or> (\<exists>f\<in>set fs. zone_id f = z \<and> L (cn_key f) \<noteq> None)"
proof (induction fs arbitrary: st)
  case Nil
  show ?case by simp
next
  case (Cons f fs)
  show ?case
    unfolding foldl_Cons Cons [of "cn_step L st f"] cn_step_zones
    by auto
qed

lemma matched_area_nonneg:
  assumes "\<forall>f\<in>set fs. 0 < area_sqft f"
  shows "0 \<le> (\<Sum>(v, a)\<leftarrow>concat (map (\<lambda>f. if zone_id f = z then
                   (case val f of None \<Rightarrow> [] | Some v \<Rightarrow> [(v, acres_from_sqft (area_sqft f))])
                   else []) fs). a)"
  using assms by (induction fs) (auto simp: acres_from_sqft_def split: option.splits)

lemma matched_area_pos:
  assumes "\<forall>f\<in>set fs. 0 < area_sqft f"
    and "\<exists>f\<in>set fs. zone_id f = z \<and> val f \<noteq> None"
  shows "0 < (\<Sum>(v, a)\<leftarrow>concat (map (\<lambda>f. if zone_id f = z then
                   (case val f of None \<Rightarrow> [] | Some v \<Rightarrow> [(v, acres_from_sqft (area_sqft f))])
                   else []) fs). a)"
  using assms
proof (induction fs)
  case Nil
  then show ?case by simp
next
  case (Cons f fs)
  have nn: "0 \<le> (\<Sum>(v, a)\<leftarrow>concat (map (\<lambda>f. if zone_id f = z then
                   (case val f of None \<Rightarrow> [] | Some v \<Rightarrow> [(v, acres_from_sqft (area_sqft f))])
                   else []) fs). a)"
    using Cons.prems(1) by (intro matched_area_nonneg) simp
  have fpos: "0 < acres_from_sqft (area_sqft f)"
    using Cons.prems(1) by (simp add: acres_from_sqft_def)
  show ?case
  proof (cases "zone_id f = z \<and> val f \<noteq> None")
    case True
    then show ?thesis using nn fpos by (auto split: option.splits)
  next
    case False
    then have "\<exists>f\<in>set fs. zone_id f = z \<and> val f \<noteq> None" using Cons.prems(2) by auto
    then have "0 < (\<Sum>(v, a)\<leftarrow>concat (map (\<lambda>f. if zone_id f = z then
                   (case val f of None \<Rightarrow> [] | Some v \<Rightarrow> [(v, acres_from_sqft (area_sqft f))])
                   else []) fs). a)"
      using Cons.IH Cons.prems(1) by simp
    then show ?thesis using False by (auto split: option.splits)
  qed
qed

lemma cn_csv_agrees:
  assumes pos: "\<forall>f\<in>set fs. 0 < area_sqft f"
  shows "cn_detailed_csv_composite L fs z = cn_comp L fs z"
proof (cases "\<exists>f\<in>set fs. zone_id f = z \<and> L (cn_key f) \<noteq> None")
  case True
  then have inz: "z \<in> d_zone ` set (detailed_records (cn_accumulate L fs))"
    by (simp add: cn_accumulate_def cn_fold_zones)
  have "data (cn_accumulate L fs) z \<noteq> None"
    unfolding cn_accumulate_def
    using True fold_None [of "cn_step L" "\<lambda>f. L (cn_key f)" agg_init fs z, OF cn_step_data]
    by auto
  then obtain acc where acc: "data (cn_accumulate L fs) z = Some acc" by auto
  have "total_area acc =
     (\<Sum>(v, a)\<leftarrow>concat (map (\<lambda>f. if zone_id f = z then
                   (case L (cn_key f) of None \<Rightarrow> [] | Some v \<Rightarrow> [(v, acres_from_sqft (area_sqft f))])
                   else []) fs). a)"
    using fold_total [of "cn_step L" "\<lambda>f. L (cn_key f)" agg_init fs z, OF cn_step_data] acc
    by (simp add: cn_accumulate_def agg_init_def)
  then have "0 < total_area acc"
    using matched_area_pos [of fs z "\<lambda>f. L (cn_key f)", OF pos True] by simp
  then show ?thesis
    using inz acc by (simp add: cn_detailed_csv_composite_def cn_comp_def composite_def Let_def)
next
  case False
  then have notin: "z \<notin> d_zone ` set (detailed_records (cn_accumulate L fs))"
    by (simp add: cn_accumulate_def cn_fold_zones agg_init_def)
  have "data (cn_accumulate L fs) z = None"
    unfolding cn_accumulate_def
    using False fold_None [of "cn_step L" "\<lambda>f. L (cn_key f)" agg_init fs z, OF cn_step_data]
    by (auto simp: agg_init_def)
  then show ?thesis
    using notin by (simp add: cn_detailed_csv_composite_def cn_comp_def composite_def Let_def)
qed


lemma composite_zero_total:
  "(case m z of None \<Rightarrow> 0 | Some acc \<Rightarrow> total_area acc) = 0 \<Longrightarrow> composite m z = None"
  by (auto simp: composite_def split: option.splits)

text \<open>
  Claim C7. A zone without matched fragments has no accumulator and its composite is
  NULL; a zone whose accumulated area is zero has the composite NULL, never the
  number 0; a zone with positive accumulated area has the composite
  \<open>area_sum / total_area\<close>. This holds for both aggregators. When every fragment has
  a positive area, the header row of the detailed CSV report of the curve-number
  calculator shows the same value, so its \<open>else 0\<close> branch is never taken.
\<close>

theorem zero_area_zone_is_null:
  "((\<forall>f\<in>set fs. zone_id f = z \<longrightarrow> cn_lookup (cn_key f) = None) \<longrightarrow>
      data (cn_accumulate cn_lookup fs) z = None \<and> cn_comp cn_lookup fs z = None) \<and>
   ((\<forall>f\<in>set fs. zone_id f = z \<longrightarrow> c_value_of c_lookup sl f = None) \<longrightarrow>
      data (c_accumulate c_lookup sl fs) z = None \<and> c_comp c_lookup sl fs z = None) \<and>
   ((case data (cn_accumulate cn_lookup fs) z of None \<Rightarrow> 0 | Some acc \<Rightarrow> total_area acc) = 0 \<longrightarrow>
      cn_comp cn_lookup fs z = None \<and> cn_comp cn_lookup fs z \<noteq> Some 0) \<and>
   ((case data (c_accumulate c_lookup sl fs) z of None \<Rightarrow> 0 | Some acc \<Rightarrow> total_area acc) = 0 \<longrightarrow>
      c_comp c_lookup sl fs z = None \<and> c_comp c_lookup sl fs z \<noteq> Some 0) \<and>
   (\<forall>acc. data (cn_accumulate cn_lookup fs) z = Some acc \<and> 0 < total_area acc \<longrightarrow>
      cn_comp cn_lookup fs z = Some (area_sum acc / total_area acc)) \<and>
   (\<forall>acc. data (c_accumulate c_lookup sl fs) z = Some acc \<and> 0 < total_area acc \<longrightarrow>
      c_comp c_lookup sl fs z = Some (area_sum acc / total_area acc)) \<and>
   ((\<forall>f\<in>set fs. 0 < area_sqft f) \<longrightarrow>
      cn_detailed_csv_composite cn_lookup fs z = cn_comp cn_lookup fs z)"
proof -
  have a: "(\<forall>f\<in>set fs. zone_id f = z \<longrightarrow> cn_lookup (cn_key f) = None) \<longrightarrow>
      data (cn_accumulate cn_lookup fs) z = None \<and> cn_comp cn_lookup fs z = None"
    using fold_None [of "cn_step cn_lookup" "\<lambda>f. cn_lookup (cn_key f)" agg_init fs z, OF cn_step_data]
    by (auto simp: cn_comp_def cn_accumulate_def composite_def agg_init_def)
  have b: "(\<forall>f\<in>set fs. zone_id f = z \<longrightarrow> c_value_of c_lookup sl f = None) \<longrightarrow>
      data (c_accumulate c_lookup sl fs) z = None \<and> c_comp c_lookup sl fs z = None"
    using fold_None [of "c_step c_lookup sl" "c_value_of c_lookup sl" agg_init fs z, OF c_step_data]
    by (auto simp: c_comp_def c_accumulate_def composite_def agg_init_def)
  have c: "(case data (cn_accumulate cn_lookup fs) z of None \<Rightarrow> 0 | Some acc \<Rightarrow> total_area acc) = 0 \<longrightarrow>
      cn_comp cn_lookup fs z = None \<and> cn_comp cn_lookup fs z \<noteq> Some 0"
    by (simp add: cn_comp_def composite_zero_total)
  have d: "(case data (c_accumulate c_lookup sl fs) z of None \<Rightarrow> 0 | Some acc \<Rightarrow> total_area acc) = 0 \<longrightarrow>
      c_comp c_lookup sl fs z = None \<and> c_comp c_lookup sl fs z \<noteq> Some 0"
    by (simp add: c_comp_def composite_zero_total)
  have e: "\<forall>acc. data (cn_accumulate cn_lookup fs) z = Some acc \<and> 0 < total_area acc \<longrightarrow>
      cn_comp cn_lookup fs z = Some (area_sum acc / total_area acc)"
    by (simp add: cn_comp_def composite_def)
  have f: "\<forall>acc. data (c_accumulate c_lookup sl fs) z = Some acc \<and> 0 < total_area acc \<longrightarrow>
      c_comp c_lookup sl fs z = Some (area_sum acc / total_area acc)"
    by (simp add: c_comp_def composite_def)
  have g: "(\<forall>f\<in>set fs. 0 < area_sqft f) \<longrightarrow>
      cn_detailed_csv_composite cn_lookup fs z = cn_comp cn_lookup fs z"
    by (rule impI) (rule cn_csv_agrees)
  show ?thesis using a b c d e f g by (intro conjI)
qed

theorem zero_area_zone_is_null_witness:
  "zone_id \<lparr>zone_id = ''A'', lu_attr = ''res'', soil_attr = Some ''A'', area_sqft = 10\<rparr> \<noteq> ''B'' \<and>
   0 < area_sqft \<lparr>zone_id = ''A'', lu_attr = ''res'', soil_attr = Some ''A'', area_sqft = 10\<rparr> \<and>
   cn_comp [(''res'', ''a'') \<mapsto> 80]
     [\<lparr>zone_id = ''A'', lu_attr = ''res'', soil_attr = Some ''A'', area_sqft = 10\<rparr>] ''B'' = None \<and>
   c_comp [(''res'', ''a_0-2%'') \<mapsto> 0.3] Slope_0_2
     [\<lparr>zone_id = ''A'', lu_attr = ''res'', soil_attr = Some ''A'', area_sqft = 10\<rparr>] ''B'' = None \<and>
   cn_detailed_csv_composite [(''res'', ''a'') \<mapsto> 80]
     [\<lparr>zone_id = ''A'', lu_attr = ''res'', soil_attr = Some ''A'', area_sqft = 10\<rparr>] ''B'' = None"
proof -
  let ?f = "\<lparr>zone_id = ''A'', lu_attr = ''res'', soil_attr = Some ''A'', area_sqft = 10\<rparr>"
  show ?thesis
    using zero_area_zone_is_null [of "[?f]" "''B''" "[(''res'', ''a'') \<mapsto> 80]"
        "[(''res'', ''a_0-2%'') \<mapsto> 0.3]" Slope_0_2]
    by simp
qed

section \<open>Properties of the time-of-concentration engine\<close>

subsection \<open>Validation at construction\<close>

lemma post_init_iff:
  "post_init p = Inl ValueError \<longleftrightarrow>
     flow_length_ft p \<le> 0 \<or> slope_ft_ft p \<le> 0 \<or>
     (\<exists>v. curve_number p = Some v \<and> v \<noteq> 0 \<and> (v < 30 \<or> 98 < v)) \<or>
     (\<exists>v. runoff_coefficient p = Some v \<and> v \<noteq> 0 \<and> (v < 0.1 \<or> 0.95 < v))"
  by (cases "curve_number p"; cases "runoff_coefficient p")
     (auto simp: post_init_def out_of_range_def)

lemma post_init_cases: "post_init p = Inl ValueError \<or> post_init p = Inr ()"
  by (simp add: post_init_def)

text \<open>
  Claim C9, as amended. Constructing \<open>TCParameters\<close> raises the validation error
  exactly when the flow length is not positive, or the slope is not positive, or a
  curve number is supplied that is not zero and lies outside 30..98, or a runoff
  coefficient is supplied that is not zero and lies outside 0.1..0.95. The roughness
  coefficient is never validated. When no error is raised the fields are stored as
  given: nothing is clamped at construction.
\<close>

theorem construction_validation:
  "(TCParameters_init p = Inl ValueError \<longleftrightarrow>
     flow_length_ft p \<le> 0 \<or> slope_ft_ft p \<le> 0 \<or>
     (\<exists>v. curve_number p = Some v \<and> v \<noteq> 0 \<and> (v < 30 \<or> 98 < v)) \<or>
     (\<exists>v. runoff_coefficient p = Some v \<and> v \<noteq> 0 \<and> (v < 0.1 \<or> 0.95 < v))) \<and>
   (TCParameters_init p = Inl ValueError \<or> TCParameters_init p = Inr p)"
proof -
  have "TCParameters_init p = Inl ValueError \<longleftrightarrow> post_init p = Inl ValueError"
    using post_init_cases [of p] by (auto simp: TCParameters_init_def)
  moreover have "TCParameters_init p = Inl ValueError \<or> TCParameters_init p = Inr p"
    using post_init_cases [of p] by (auto simp: TCParameters_init_def)
  ultimately show ?thesis by (simp only: post_init_iff simp_thms)
qed

theorem construction_validation_witness:
  "TCParameters_init
     \<lparr>flow_length_ft = 500, elevation_diff_ft = 10, slope_ft_ft = 0.02,
      upstream_elev_ft = 110, downstream_elev_ft = 100,
      curve_number = Some 120, runoff_coefficient = Some 0.5,
      roughness_coefficient = Some 0.3\<rparr> = Inl ValueError"
proof -
  let ?p = "\<lparr>flow_length_ft = 500, elevation_diff_ft = 10, slope_ft_ft = 0.02,
      upstream_elev_ft = 110, downstream_elev_ft = 100,
      curve_number = Some 120, runoff_coefficient = Some 0.5,
      roughness_coefficient = Some 0.3\<rparr>"
  show ?thesis using construction_validation [of ?p] by simp
qed

text \<open>
  A roughness coefficient of 5, far outside 0.02..0.8, is accepted by the constructor.
\<close>

theorem roughness_not_validated_counterexample:
  "TCParameters_init
     \<lparr>flow_length_ft = 500, elevation_diff_ft = 10, slope_ft_ft = 0.02,
      upstream_elev_ft = 110, downstream_elev_ft = 100,
      curve_number = Some 70, runoff_coefficient = Some 0.5,
      roughness_coefficient = Some 5\<rparr>
   = Inr \<lparr>flow_length_ft = 500, elevation_diff_ft = 10, slope_ft_ft = 0.02,
      upstream_elev_ft = 110, downstream_elev_ft = 100,
      curve_number = Some 70, runoff_coefficient = Some 0.5,
      roughness_coefficient = Some 5\<rparr>"
  by (simp add: TCParameters_init_def post_init_def out_of_range_def)

subsection \<open>Missing and zero optional parameters\<close>

lemma py_or_falsy: "x = None \<or> x = Some 0 \<Longrightarrow> py_or x d = d"
  by (auto simp: py_or_def)

lemma SCS_cong:
  "flow_length_ft p = flow_length_ft q \<Longrightarrow> slope_ft_ft p = slope_ft_ft q \<Longrightarrow>
   py_or (curve_number p) 70.0 = py_or (curve_number q) 70.0 \<Longrightarrow>
   SCSLagTimeMethod_calculate p = SCSLagTimeMethod_calculate q"
  unfolding SCSLagTimeMethod_calculate_def by (simp only:)

lemma FAA_cong:
  "flow_length_ft p = flow_length_ft q \<Longrightarrow> slope_ft_ft p = slope_ft_ft q \<Longrightarrow>
   py_or (runoff_coefficient p) 0.5 = py_or (runoff_coefficient q) 0.5 \<Longrightarrow>
   FAAMethod_calculate p = FAAMethod_calculate q"
  unfolding FAAMethod_calculate_def by (simp only:)

lemma Kerby_cong:
  "flow_length_ft p = flow_length_ft q \<Longrightarrow> slope_ft_ft p = slope_ft_ft q \<Longrightarrow>
   py_or (roughness_coefficient p) 0.3 = py_or (roughness_coefficient q) 0.3 \<Longrightarrow>
   KerbyMethod_calculate p = KerbyMethod_calculate q"
  unfolding KerbyMethod_calculate_def by (simp only:)

lemma Kirpich_cong:
  "flow_length_ft p = flow_length_ft q \<Longrightarrow> slope_ft_ft p = slope_ft_ft q \<Longrightarrow>
   KirpichMethod_calculate p = KirpichMethod_calculate q"
  unfolding KirpichMethod_calculate_def by (simp only:)

text \<open>
  Claim C10. With a positive flow length and slope, a curve number or runoff
  coefficient that is \<open>0\<close> or \<open>None\<close> raises no validation error (the other one being
  \<open>0\<close>, \<open>None\<close> or in range), because the validator tests the truth value before the
  range. The formulas then compute as with the built-in defaults: curve number 70,
  runoff coefficient 0.5 and roughness coefficient 0.3.
\<close>

theorem falsy_optionals_use_defaults:
  assumes "0 < flow_length_ft p" and "0 < slope_ft_ft p"
  shows "((curve_number p = None \<or> curve_number p = Some 0 \<or>
            (\<exists>v. curve_number p = Some v \<and> 30 \<le> v \<and> v \<le> 98)) \<and>
          (runoff_coefficient p = None \<or> runoff_coefficient p = Some 0 \<or>
            (\<exists>v. runoff_coefficient p = Some v \<and> 0.1 \<le> v \<and> v \<le> 0.95))
          \<longrightarrow> TCParameters_init p = Inr p) \<and>
         (curve_number p = None \<or> curve_number p = Some 0 \<longrightarrow>
            SCSLagTimeMethod_calculate p = SCSLagTimeMethod_calculate (p\<lparr>curve_number := Some 70\<rparr>)) \<and>
         (runoff_coefficient p = None \<or> runoff_coefficient p = Some 0 \<longrightarrow>
            FAAMethod_calculate p = FAAMethod_calculate (p\<lparr>runoff_coefficient := Some 0.5\<rparr>)) \<and>
         (roughness_coefficient p = None \<or> roughness_coefficient p = Some 0 \<longrightarrow>
            KerbyMethod_calculate p = KerbyMethod_calculate (p\<lparr>roughness_coefficient := Some 0.3\<rparr>))"
proof (intro conjI impI)
  assume "(curve_number p = None \<or> curve_number p = Some 0 \<or>
            (\<exists>v. curve_number p = Some v \<and> 30 \<le> v \<and> v \<le> 98)) \<and>
          (runoff_coefficient p = None \<or> runoff_coefficient p = Some 0 \<or>
            (\<exists>v. runoff_coefficient p = Some v \<and> 0.1 \<le> v \<and> v \<le> 0.95))"
  then have "post_init p = Inr ()"
    using assms by (auto simp: post_init_def out_of_range_def)
  then show "TCParameters_init p = Inr p" by (simp add: TCParameters_init_def)
next
  assume "curve_number p = None \<or> curve_number p = Some 0"
  then have "py_or (curve_number p) 70 = 70" by (rule py_or_falsy)
  then show "SCSLagTimeMethod_calculate p = SCSLagTimeMethod_calculate (p\<lparr>curve_number := Some 70\<rparr>)"
    by (intro SCS_cong) (simp_all add: py_or_def)
next
  assume "runoff_coefficient p = None \<or> runoff_coefficient p = Some 0"
  then have "py_or (runoff_coefficient p) 0.5 = 0.5" by (rule py_or_falsy)
  then show "FAAMethod_calculate p = FAAMethod_calculate (p\<lparr>runoff_coefficient := Some 0.5\<rparr>)"
    by (intro FAA_cong) (simp_all add: py_or_def)
next
  assume "roughness_coefficient p = None \<or> roughness_coefficient p = Some 0"
  then have "py_or (roughness_coefficient p) 0.3 = 0.3" by (rule py_or_falsy)
  then show "KerbyMethod_calculate p = KerbyMethod_calculate (p\<lparr>roughness_coefficient := Some 0.3\<rparr>)"
    by (intro Kerby_cong) (simp_all add: py_or_def)
qed

theorem falsy_optionals_use_defaults_witness:
  "TCParameters_init
     \<lparr>flow_length_ft = 500, elevation_diff_ft = 10, slope_ft_ft = 0.02,
      upstream_elev_ft = 110, downstream_elev_ft = 100,
      curve_number = Some 0, runoff_coefficient = Some 0, roughness_coefficient = None\<rparr>
   = Inr \<lparr>flow_length_ft = 500, elevation_diff_ft = 10, slope_ft_ft = 0.02,
      upstream_elev_ft = 110, downstream_elev_ft = 100,
      curve_number = Some 0, runoff_coefficient = Some 0, roughness_coefficient = None\<rparr> \<and>
   SCSLagTimeMethod_calculate
     \<lparr>flow_length_ft = 500, elevation_diff_ft = 10, slope_ft_ft = 0.02,
      upstream_elev_ft = 110, downstream_elev_ft = 100,
      curve_number = Some 0, runoff_coefficient = Some 0, roughness_coefficient = None\<rparr>
   = SCSLagTimeMethod_calculate
     \<lparr>flow_length_ft = 500, elevation_diff_ft = 10, slope_ft_ft = 0.02,
      upstream_elev_ft = 110, downstream_elev_ft = 100,
      curve_number = Some 70, runoff_coefficient = Some 0, roughness_coefficient = None\<rparr> \<and>
   FAAMethod_calculate
     \<lparr>flow_length_ft = 500, elevation_diff_ft = 10, slope_ft_ft = 0.02,
      upstream_elev_ft = 110, downstream_elev_ft = 100,
      curve_number = Some 0, runoff_coefficient = Some 0, roughness_coefficient = None\<rparr>
   = FAAMethod_calculate
     \<lparr>flow_length_ft = 500, elevation_diff_ft = 10, slope_ft_ft = 0.02,
      upstream_elev_ft = 110, downstream_elev_ft = 100,
      curve_number = Some 0, runoff_coefficient = Some 0.5, roughness_coefficient = None\<rparr> \<and>
   KerbyMethod_calculate
     \<lparr>flow_length_ft = 500, elevation_diff_ft = 10, slope_ft_ft = 0.02,
      upstream_elev_ft = 110, downstream_elev_ft = 100,
      curve_number = Some 0, runoff_coefficient = Some 0, roughness_coefficient = None\<rparr>
   = KerbyMethod_calculate
     \<lparr>flow_length_ft = 500, elevation_diff_ft = 10, slope_ft_ft = 0.02,
      upstream_elev_ft = 110, downstream_elev_ft = 100,
      curve_number = Some 0, runoff_coefficient = Some 0, roughness_coefficient = Some 0.3\<rparr>"
proof -
  let ?p = "\<lparr>flow_length_ft = 500, elevation_diff_ft = 10, slope_ft_ft = 0.02,
      upstream_elev_ft = 110, downstream_elev_ft = 100,
      curve_number = Some 0, runoff_coefficient = Some 0, roughness_coefficient = None\<rparr>"
  have l: "0 < flow_length_ft ?p" and s: "0 < slope_ft_ft ?p" by simp_all
  show ?thesis using falsy_optionals_use_defaults [OF l s] by simp
qed

subsection \<open>The four formulas and the slope floor\<close>

lemma clamp_range:
  "30 \<le> max 30 (min 98 (x::real))" "max 30 (min 98 (x::real)) \<le> 98"
  "0.1 \<le> max 0.1 (min 0.95 (y::real))" "max 0.1 (min 0.95 (y::real)) \<le> 0.95"
  "0.02 \<le> max 0.02 (min 0.8 (z::real))" "max 0.02 (min 0.8 (z::real)) \<le> 0.8"
  by simp_all

lemma retention_pos:
  assumes "30 \<le> (CN::real)" "CN \<le> 98"
  shows "1 < 1000 / CN - 9"
proof -
  have "0 < CN" using assms by simp
  then have "10 * CN < 1000" using assms by simp
  then have "10 < 1000 / CN" using \<open>0 < CN\<close> by (simp add: pos_less_divide_eq)
  then show ?thesis by simp
qed



lemma SCS_value:
  assumes "0 \<le> flow_length_ft p"
  shows "SCSLagTimeMethod_calculate p =
           Inr (max (1.67 * (flow_length_ft p powr 0.8
                       * (1000 / max 30 (min 98 (py_or (curve_number p) 70)) - 9) powr 0.7
                       / (1900 * sqrt (max (slope_ft_ft p * 100) 0.1))) * 60) 5)"
proof -
  let ?CN = "max 30 (min 98 (py_or (curve_number p) 70))"
  have cn: "?CN \<noteq> 0" using clamp_range(1) [of "py_or (curve_number p) 70"] by linarith
  have r: "\<not> 1000 / ?CN - 9 < 0"
    using retention_pos [OF clamp_range(1) clamp_range(2), of "py_or (curve_number p) 70"] by linarith
  have "0 < max (slope_ft_ft p * 100) 0.1" by simp
  then have s: "\<not> max (slope_ft_ft p * 100) 0.1 < 0" "sqrt (max (slope_ft_ft p * 100) 0.1) \<noteq> 0"
    by simp_all
  have l: "\<not> flow_length_ft p < 0" using assms by simp
  show ?thesis
    unfolding SCSLagTimeMethod_calculate_def Let_def bind_err_def py_pow_def py_div_def math_sqrt_def
    using cn r s l by simp
qed
















subsection \<open>The SCS lag formula and the stand-alone calculator\<close>

text \<open>
  Claim C2, as amended. For a positive flow length \<open>L\<close> and any slope \<open>S\<close>, the SCS/NRCS
  method returns \<open>max (1.67 * lag * 60) 5\<close> minutes, where the lag in hours is
  \<open>L^0.8 * R^0.7 / (1900 * sqrt S_pct)\<close>, the retention term is \<open>R = 1000/CN - 9\<close> (not
  \<open>R + 1\<close>), \<open>CN\<close> is the curve number, 70 when missing or zero, clamped to 30..98, and
  \<open>S_pct\<close> is the slope in percent floored at 0.1, which is \<open>S * 100\<close> from a slope of
  0.001 on. The lag is positive.
\<close>

theorem scs_lag_formula:
  assumes "0 < flow_length_ft p"
  shows "SCSLagTimeMethod_calculate p =
           Inr (max (1.67 * (flow_length_ft p powr 0.8
                       * (1000 / max 30 (min 98 (py_or (curve_number p) 70)) - 9) powr 0.7
                       / (1900 * sqrt (max (slope_ft_ft p * 100) 0.1))) * 60) 5) \<and>
         0 < flow_length_ft p powr 0.8
               * (1000 / max 30 (min 98 (py_or (curve_number p) 70)) - 9) powr 0.7
               / (1900 * sqrt (max (slope_ft_ft p * 100) 0.1)) \<and>
         (0.001 \<le> slope_ft_ft p \<longrightarrow> max (slope_ft_ft p * 100) 0.1 = slope_ft_ft p * 100) \<and>
         (\<forall>v. curve_number p = Some v \<and> 30 \<le> v \<and> v \<le> 98 \<longrightarrow>
              max 30 (min 98 (py_or (curve_number p) 70)) = v)"
proof (intro conjI)
  show "SCSLagTimeMethod_calculate p =
           Inr (max (1.67 * (flow_length_ft p powr 0.8
                       * (1000 / max 30 (min 98 (py_or (curve_number p) 70)) - 9) powr 0.7
                       / (1900 * sqrt (max (slope_ft_ft p * 100) 0.1))) * 60) 5)"
    using assms by (intro SCS_value) simp
next
  let ?CN = "max 30 (min 98 (py_or (curve_number p) 70))"
  have "1 < 1000 / ?CN - 9"
    by (rule retention_pos [OF clamp_range(1) clamp_range(2)])
  then have r: "0 < (1000 / ?CN - 9) powr 0.7" by simp
  have l: "0 < flow_length_ft p powr 0.8" using assms by simp
  have "0 < max (slope_ft_ft p * 100) 0.1" by simp
  then have s: "0 < 1900 * sqrt (max (slope_ft_ft p * 100) 0.1)" by simp
  show "0 < flow_length_ft p powr 0.8 * (1000 / ?CN - 9) powr 0.7
               / (1900 * sqrt (max (slope_ft_ft p * 100) 0.1))"
    by (rule divide_pos_pos [OF mult_pos_pos [OF l r] s])
next
  show "0.001 \<le> slope_ft_ft p \<longrightarrow> max (slope_ft_ft p * 100) 0.1 = slope_ft_ft p * 100"
    by (simp add: max_def)
next
  show "\<forall>v. curve_number p = Some v \<and> 30 \<le> v \<and> v \<le> 98 \<longrightarrow>
              max 30 (min 98 (py_or (curve_number p) 70)) = v"
    by (auto simp: py_or_def)
qed


lemma powr_lower_bounds:
  "100 \<le> (10000::real) powr 0.8" "1 \<le> (11::real) powr 0.7" "(11::real) powr 0.7 < 12 powr 0.7"
proof -
  have "(10000::real) powr (1/2) \<le> 10000 powr 0.8" by (intro powr_mono) simp_all
  moreover have "(10000::real) powr (1/2) = 100"
  proof -
    have "sqrt (10000::real) = sqrt (100\<^sup>2)" by simp
    also have "\<dots> = 100" by (simp only: real_sqrt_abs abs_numeral)
    finally show ?thesis by (simp add: powr_half_sqrt)
  qed
  ultimately show "100 \<le> (10000::real) powr 0.8" by simp
  show "1 \<le> (11::real) powr 0.7" by (intro ge_one_powr_ge_zero) simp_all
  show "(11::real) powr 0.7 < 12 powr 0.7" by (intro powr_less_mono2) simp_all
qed

text \<open>
  The formula of the claim, with \<open>(R + 1)^0.7\<close> for \<open>R = 1000/CN - 9\<close>, is not what the
  method returns: at \<open>L = 10000\<close>, \<open>S = 0.01\<close>, \<open>CN = 50\<close> the method computes with
  \<open>11^0.7\<close> where the claim has \<open>12^0.7\<close>, and the 5-minute floor plays no part.
\<close>

theorem scs_retention_plus_one_counterexample:
  "SCSLagTimeMethod_calculate
      \<lparr>flow_length_ft = 10000, elevation_diff_ft = 100, slope_ft_ft = 0.01,
       upstream_elev_ft = 200, downstream_elev_ft = 100,
       curve_number = Some 50, runoff_coefficient = Some 0.5, roughness_coefficient = Some 0.3\<rparr>
   \<noteq> Inr (spec_scs_tc 10000 0.01 50)"
proof -
  let ?p = "\<lparr>flow_length_ft = 10000, elevation_diff_ft = 100, slope_ft_ft = 0.01,
       upstream_elev_ft = 200, downstream_elev_ft = 100,
       curve_number = Some 50, runoff_coefficient = Some 0.5, roughness_coefficient = Some 0.3\<rparr>"
  define A :: real where "A = 10000 powr 0.8"
  define x :: real where "x = 11 powr 0.7"
  define y :: real where "y = 12 powr 0.7"
  have A: "100 \<le> A" and x: "1 \<le> x" and xy: "x < y"
    using powr_lower_bounds by (simp_all add: A_def x_def y_def)
  have code: "SCSLagTimeMethod_calculate ?p = Inr (max (1.67 * (A * x / 1900) * 60) 5)"
    using SCS_value [of ?p] by (simp add: py_or_def A_def x_def)
  have spec: "spec_scs_tc 10000 0.01 50 = 1.67 * (A * y / 1900) * 60"
    by (simp add: spec_scs_tc_def A_def y_def)
  have "100 * 1 \<le> A * x" using A x by (intro mult_mono) simp_all
  then have big: "5 \<le> 1.67 * (A * x / 1900) * 60" by simp
  have "A * x < A * y" using A xy by simp
  then have lt: "1.67 * (A * x / 1900) * 60 < 1.67 * (A * y / 1900) * 60" by simp
  have "max (1.67 * (A * x / 1900) * 60) 5 = 1.67 * (A * x / 1900) * 60"
    using big by (simp add: max_def)
  then show ?thesis using lt by (simp only: code spec sum.inject(2))
qed


theorem scs_lag_formula_witness:
  "(0::real) < flow_length_ft
      \<lparr>flow_length_ft = 10000, elevation_diff_ft = 100, slope_ft_ft = 0.01,
       upstream_elev_ft = 200, downstream_elev_ft = 100,
       curve_number = Some 50, runoff_coefficient = Some 0.5, roughness_coefficient = Some 0.3\<rparr> \<and>
   SCSLagTimeMethod_calculate
      \<lparr>flow_length_ft = 10000, elevation_diff_ft = 100, slope_ft_ft = 0.01,
       upstream_elev_ft = 200, downstream_elev_ft = 100,
       curve_number = Some 50, runoff_coefficient = Some 0.5, roughness_coefficient = Some 0.3\<rparr>
   = Inr (max (1.67 * (10000 powr 0.8 * 11 powr 0.7 / 1900) * 60) 5)"
proof -
  let ?p = "\<lparr>flow_length_ft = 10000, elevation_diff_ft = 100, slope_ft_ft = 0.01,
       upstream_elev_ft = 200, downstream_elev_ft = 100,
       curve_number = Some 50, runoff_coefficient = Some 0.5, roughness_coefficient = Some 0.3\<rparr>"
  have l: "(0::real) < flow_length_ft ?p" by simp
  show ?thesis using scs_lag_formula [OF l] by (simp add: py_or_def)
qed

lemma basin_slope_floor:
  "calculate_basin_slope None = 1" "Y \<le> 1 \<Longrightarrow> calculate_basin_slope (Some Y) = 1"
  "1 \<le> Y \<Longrightarrow> calculate_basin_slope (Some Y) = Y" "1 \<le> calculate_basin_slope m"
  by (simp_all add: calculate_basin_slope_def Let_def max_def)

lemma basin_tc_value:
  assumes "0 < L" "30 \<le> CN" "CN \<le> 98"
  shows "calculate_basin_tc L m CN =
           Some (L powr 0.8 * (1000 / CN - 9) powr 0.7
                   / (1900 * sqrt (calculate_basin_slope m)) * 60 / 0.6)"
proof -
  have c: "CN \<noteq> 0" using assms by simp
  have "1 < 1000 / CN - 9" using assms by (intro retention_pos)
  then have r: "\<not> 1000 / CN - 10 + 1 < 0" "1000 / CN - 10 + 1 = 1000 / CN - 9" by simp_all
  have p: "0 < calculate_basin_slope m" using basin_slope_floor(4) [of m] by linarith
  then have y: "calculate_basin_slope m powr 0.5 = sqrt (calculate_basin_slope m)"
    by (simp add: powr_half_sqrt)
  show ?thesis
    unfolding calculate_basin_tc_def Let_def using c r y p assms by simp
qed

text \<open>
  Claim C3, as amended. For a positive flow length, a slope of at least 1 percent and
  a curve number in 30..98, the stand-alone calculator returns a positive time \<open>t\<close>,
  and the SCS method of the multi-method engine returns \<open>max (1.002 * t) 5\<close>: the
  factor 1.67 is 1.002 times the factor 1/0.6, so above the 5-minute floor the two
  results differ by 0.2 percent and are never equal. Below 1 percent the stand-alone
  calculator computes with a slope of 1 percent, whatever the mean slope is.
\<close>

theorem scs_versus_standalone:
  assumes "0 < flow_length_ft p" and "0.01 \<le> slope_ft_ft p"
    and "curve_number p = Some CN" and "30 \<le> CN" and "CN \<le> 98"
  shows "(\<exists>t. calculate_basin_tc (flow_length_ft p) (Some (slope_ft_ft p * 100)) CN = Some t \<and> 0 < t \<and>
             SCSLagTimeMethod_calculate p = Inr (max (1.002 * t) 5) \<and>
             (5 \<le> 1.002 * t \<longrightarrow> SCSLagTimeMethod_calculate p = Inr (1.002 * t) \<and> 1.002 * t \<noteq> t)) \<and>
         (Y \<le> 1 \<longrightarrow> calculate_basin_tc L (Some Y) c = calculate_basin_tc L (Some 1) c) \<and>
         calculate_basin_tc L None c = calculate_basin_tc L (Some 1) c"
proof (intro conjI)
  define Q where "Q = flow_length_ft p powr 0.8 * (1000 / CN - 9) powr 0.7
                        / (1900 * sqrt (slope_ft_ft p * 100))"
  have y: "0 < slope_ft_ft p * 100" and y1: "1 \<le> slope_ft_ft p * 100" using assms(2) by simp_all
  have fl: "calculate_basin_slope (Some (slope_ft_ft p * 100)) = slope_ft_ft p * 100"
    using y1 by (rule basin_slope_floor(3))
  have t: "calculate_basin_tc (flow_length_ft p) (Some (slope_ft_ft p * 100)) CN = Some (Q * 60 / 0.6)"
    using basin_tc_value [OF assms(1) assms(4) assms(5), of "Some (slope_ft_ft p * 100)"]
    by (simp only: fl Q_def)
  have cn: "max 30 (min 98 (py_or (curve_number p) 70)) = CN"
    using assms(3,4,5) by (auto simp: py_or_def)
  have sl: "max (slope_ft_ft p * 100) 0.1 = slope_ft_ft p * 100"
    using assms(2) by (simp add: max_def)
  have "SCSLagTimeMethod_calculate p = Inr (max (1.67 * Q * 60) 5)"
    using SCS_value [of p] assms(1) by (simp only: cn sl Q_def)
  moreover have "1.67 * Q * 60 = 1.002 * (Q * 60 / 0.6)" by simp
  ultimately have m: "SCSLagTimeMethod_calculate p = Inr (max (1.002 * (Q * 60 / 0.6)) 5)"
    by (simp only:)
  have "1 < 1000 / CN - 9" using assms(4,5) by (intro retention_pos)
  then have qr: "0 < (1000 / CN - 9) powr 0.7" by simp
  have ql: "0 < flow_length_ft p powr 0.8" using assms(1) by simp
  have qs: "0 < 1900 * sqrt (slope_ft_ft p * 100)" using y by simp
  have "0 < Q" unfolding Q_def by (rule divide_pos_pos [OF mult_pos_pos [OF ql qr] qs])
  then have pos: "0 < Q * 60 / 0.6" by simp
  have ne: "1.002 * (Q * 60 / 0.6) \<noteq> Q * 60 / 0.6" using pos by simp
  have fl: "5 \<le> 1.002 * (Q * 60 / 0.6) \<longrightarrow>
              SCSLagTimeMethod_calculate p = Inr (1.002 * (Q * 60 / 0.6))"
    using m by (simp add: max_def)
  show "\<exists>t. calculate_basin_tc (flow_length_ft p) (Some (slope_ft_ft p * 100)) CN = Some t \<and> 0 < t \<and>
             SCSLagTimeMethod_calculate p = Inr (max (1.002 * t) 5) \<and>
             (5 \<le> 1.002 * t \<longrightarrow> SCSLagTimeMethod_calculate p = Inr (1.002 * t) \<and> 1.002 * t \<noteq> t)"
    using t pos m ne fl by blast
next
  show "Y \<le> 1 \<longrightarrow> calculate_basin_tc L (Some Y) c = calculate_basin_tc L (Some 1) c"
    by (simp add: calculate_basin_tc_def basin_slope_floor)
next
  show "calculate_basin_tc L None c = calculate_basin_tc L (Some 1) c"
    by (simp add: calculate_basin_tc_def basin_slope_floor)
qed

theorem scs_versus_standalone_witness:
  "(0::real) < flow_length_ft
      \<lparr>flow_length_ft = 10000, elevation_diff_ft = 100, slope_ft_ft = 0.01,
       upstream_elev_ft = 200, downstream_elev_ft = 100,
       curve_number = Some 50, runoff_coefficient = Some 0.5, roughness_coefficient = Some 0.3\<rparr> \<and>
   (\<exists>t. calculate_basin_tc 10000 (Some (0.01 * 100)) 50 = Some t \<and> 0 < t \<and>
        SCSLagTimeMethod_calculate
          \<lparr>flow_length_ft = 10000, elevation_diff_ft = 100, slope_ft_ft = 0.01,
           upstream_elev_ft = 200, downstream_elev_ft = 100,
           curve_number = Some 50, runoff_coefficient = Some 0.5, roughness_coefficient = Some 0.3\<rparr>
        = Inr (max (1.002 * t) 5))"
proof -
  let ?p = "\<lparr>flow_length_ft = 10000, elevation_diff_ft = 100, slope_ft_ft = 0.01,
       upstream_elev_ft = 200, downstream_elev_ft = 100,
       curve_number = Some 50, runoff_coefficient = Some 0.5, roughness_coefficient = Some 0.3\<rparr>"
  have l: "(0::real) < flow_length_ft ?p" and s: "0.01 \<le> slope_ft_ft ?p"
    and c: "curve_number ?p = Some 50" and lo: "(30::real) \<le> 50" and hi: "(50::real) \<le> 98"
    by simp_all
  note ex = scs_versus_standalone [OF l s c lo hi, THEN conjunct1]
  from ex obtain t where "calculate_basin_tc (flow_length_ft ?p) (Some (slope_ft_ft ?p * 100)) 50 = Some t"
    "0 < t" "SCSLagTimeMethod_calculate ?p = Inr (max (1.002 * t) 5)"
    by (elim exE conjE)
  then have "calculate_basin_tc 10000 (Some (0.01 * 100)) 50 = Some t \<and> 0 < t \<and>
        SCSLagTimeMethod_calculate ?p = Inr (max (1.002 * t) 5)"
    by simp
  then show ?thesis using l by blast
qed

text \<open>
  At \<open>L = 10000\<close>, slope 0.01 (a mean slope of 1 percent) and \<open>CN = 50\<close> the two
  calculators return different times.
\<close>

theorem scs_factor_counterexample:
  "calculate_basin_tc 10000 (Some 1) 50 = Some (10000 powr 0.8 * 11 powr 0.7 / 19) \<and>
   SCSLagTimeMethod_calculate
      \<lparr>flow_length_ft = 10000, elevation_diff_ft = 100, slope_ft_ft = 0.01,
       upstream_elev_ft = 200, downstream_elev_ft = 100,
       curve_number = Some 50, runoff_coefficient = Some 0.5, roughness_coefficient = Some 0.3\<rparr>
   \<noteq> Inr (10000 powr 0.8 * 11 powr 0.7 / 19)"
proof -
  let ?p = "\<lparr>flow_length_ft = 10000, elevation_diff_ft = 100, slope_ft_ft = 0.01,
       upstream_elev_ft = 200, downstream_elev_ft = 100,
       curve_number = Some 50, runoff_coefficient = Some 0.5, roughness_coefficient = Some 0.3\<rparr>"
  define A :: real where "A = 10000 powr 0.8"
  define x :: real where "x = 11 powr 0.7"
  have A: "100 \<le> A" and x: "1 \<le> x"
    using powr_lower_bounds by (simp_all add: A_def x_def)
  have alone: "calculate_basin_tc 10000 (Some 1) 50 = Some (A * x / 19)"
    using basin_tc_value [of 10000 50 "Some 1"] by (simp add: A_def x_def basin_slope_floor)
  have code: "SCSLagTimeMethod_calculate ?p = Inr (max (1.67 * (A * x / 1900) * 60) 5)"
    using SCS_value [of ?p] by (simp add: py_or_def A_def x_def)
  have ax: "100 * 1 \<le> A * x" using A x by (intro mult_mono) simp_all
  then have big: "5 \<le> 1.67 * (A * x / 1900) * 60" by simp
  have "A \<noteq> 0" "x \<noteq> 0" using A x by simp_all
  then have "1.67 * (A * x / 1900) * 60 \<noteq> A * x / 19" by simp
  moreover have "max (1.67 * (A * x / 1900) * 60) 5 = 1.67 * (A * x / 1900) * 60"
    using big by (simp add: max_def)
  ultimately have "SCSLagTimeMethod_calculate ?p \<noteq> Inr (A * x / 19)"
    by (simp only: code sum.inject(2) not_False_eq_True)
  then show ?thesis using alone unfolding A_def x_def by (intro conjI)
qed

subsection \<open>Comparative statistics\<close>

lemma filter_length_sort:
  "length (filter P (sort xs)) = length (filter P (xs::real list))"
proof -
  have "mset (filter P (sort xs)) = mset (filter P xs)" by (simp only: mset_filter mset_sort)
  then show ?thesis by (metis size_mset)
qed

lemma sorted_count_le:
  assumes "sorted (s::real list)" and "k < length s" and "s ! k \<le> m"
  shows "k + 1 \<le> length (filter (\<lambda>x. x \<le> m) s)"
proof -
  have all: "\<forall>x\<in>set (take (k + 1) s). x \<le> m"
  proof
    fix x assume "x \<in> set (take (k + 1) s)"
    then obtain i where i: "i < k + 1" "i < length s" "x = s ! i"
      by (auto simp: in_set_conv_nth)
    then have "s ! i \<le> s ! k" using assms(1,2) by (intro sorted_nth_mono) simp_all
    then show "x \<le> m" using i assms(3) by simp
  qed
  have "length (filter (\<lambda>x. x \<le> m) s) =
        length (filter (\<lambda>x. x \<le> m) (take (k + 1) s)) + length (filter (\<lambda>x. x \<le> m) (drop (k + 1) s))"
    by (metis append_take_drop_id filter_append length_append)
  moreover have "filter (\<lambda>x. x \<le> m) (take (k + 1) s) = take (k + 1) s"
    using all by (simp only: filter_True)
  moreover have "length (take (k + 1) s) = k + 1" using assms(2) by simp
  ultimately show ?thesis by simp
qed

lemma sorted_count_ge:
  assumes "sorted (s::real list)" and "k < length s" and "m \<le> s ! k"
  shows "length s - k \<le> length (filter (\<lambda>x. m \<le> x) s)"
proof -
  have all: "\<forall>x\<in>set (drop k s). m \<le> x"
  proof
    fix x assume "x \<in> set (drop k s)"
    then obtain i where i: "i < length s - k" "x = s ! (k + i)"
      by (auto simp: in_set_conv_nth)
    then have "s ! k \<le> s ! (k + i)" using assms(1) by (intro sorted_nth_mono) simp_all
    then show "m \<le> x" using i assms(3) by simp
  qed
  have "length (filter (\<lambda>x. m \<le> x) s) =
        length (filter (\<lambda>x. m \<le> x) (take k s)) + length (filter (\<lambda>x. m \<le> x) (drop k s))"
    by (metis append_take_drop_id filter_append length_append)
  moreover have "filter (\<lambda>x. m \<le> x) (drop k s) = drop k s"
    using all by (simp only: filter_True)
  ultimately show ?thesis by simp
qed

lemma median_value:
  assumes "xs \<noteq> []"
  shows "median xs = Inr (if odd (length xs) then sort xs ! (length xs div 2)
                          else (sort xs ! (length xs div 2 - 1) + sort xs ! (length xs div 2)) / 2)"
proof -
  have "length (sort xs) \<noteq> 0" using assms by simp
  then show ?thesis
    unfolding median_def Let_def by (simp add: odd_iff_mod_2_eq_one)
qed

lemma median_halves:
  assumes "xs \<noteq> []" and "median xs = Inr m"
  shows "length xs \<le> 2 * length (filter (\<lambda>x. x \<le> m) xs) \<and>
         length xs \<le> 2 * length (filter (\<lambda>x. m \<le> x) xs)"
proof -
  let ?s = "sort xs"
  let ?n = "length xs"
  have srt: "sorted ?s" and len: "length ?s = ?n" by simp_all
  have npos: "0 < ?n" using assms(1) by simp
  show ?thesis
  proof (cases "odd ?n")
    case True
    then have m: "m = ?s ! (?n div 2)" using assms median_value [OF assms(1)] by simp
    have k: "?n div 2 < length ?s" using npos by simp
    have "?n div 2 + 1 \<le> length (filter (\<lambda>x. x \<le> m) ?s)"
      using sorted_count_le [OF srt k, of m] m by simp
    moreover have "length ?s - ?n div 2 \<le> length (filter (\<lambda>x. m \<le> x) ?s)"
      using sorted_count_ge [OF srt k, of m] m by simp
    ultimately show ?thesis
      unfolding filter_length_sort len using True by presburger
  next
    case False
    then have m: "m = (?s ! (?n div 2 - 1) + ?s ! (?n div 2)) / 2"
      using assms median_value [OF assms(1)] by simp
    have k: "?n div 2 < length ?s" using npos by simp
    have k1: "?n div 2 - 1 < length ?s" using npos unfolding len by presburger
    have "?s ! (?n div 2 - 1) \<le> ?s ! (?n div 2)"
      using srt k by (intro sorted_nth_mono) simp_all
    then have lo: "?s ! (?n div 2 - 1) \<le> m" and hi: "m \<le> ?s ! (?n div 2)"
      using m by simp_all
    have "?n div 2 - 1 + 1 \<le> length (filter (\<lambda>x. x \<le> m) ?s)"
      by (rule sorted_count_le [OF srt k1 lo])
    moreover have "length ?s - ?n div 2 \<le> length (filter (\<lambda>x. m \<le> x) ?s)"
      by (rule sorted_count_ge [OF srt k hi])
    ultimately show ?thesis
      unfolding filter_length_sort len using False npos by presburger
  qed
qed


lemma valid_results_pos: "\<forall>x\<in>set (valid_results r ms). 0 < x"
  by (induction ms) (auto split: option.splits)

lemma sqrt_100: "sqrt 100 = 10"
proof -
  have "sqrt ((10::real)\<^sup>2) = 10" by (simp only: real_sqrt_abs abs_numeral)
  then show ?thesis by simp
qed

lemma statistics_example:
  "mean [10, 20, 30] = Inr 20" "stdev [10, 20, 30] = Inr 10" "median [10, 20, 30] = Inr 20"
  by (simp_all add: mean_def stdev_def median_def Let_def sqrt_100)

text \<open>
  Claim C4. Let \<open>vs\<close> be the valid values of the selected methods (those present and
  positive). With two or more values the average is the arithmetic mean, the standard
  deviation is the sample standard deviation with denominator \<open>n - 1\<close>, and the
  recommended value is the median: the middle of the sorted values, or the mean of
  the two middle ones, so that at least half of the values lie on either side of it.
  With exactly one value \<open>v\<close> the average and the recommended value are \<open>v\<close> and the
  standard deviation is 0. With no value the result object is unchanged, so the three
  fields of an object made by the constructor stay \<open>None\<close>. The values 10, 20, 30 give
  the mean 20, the standard deviation 10 and the median 20.
\<close>

theorem comparative_statistics:
  assumes "vs = valid_results r selected_methods"
  shows "(2 \<le> length vs \<longrightarrow>
           (\<exists>avg sd med.
              calculate_statistics r selected_methods =
                Inr (r\<lparr>tc_average_min := Some avg, tc_std_dev_min := Some sd,
                       tc_recommended_min := Some med\<rparr>) \<and>
              avg = sum_list vs / real (length vs) \<and>
              sd = sqrt ((\<Sum>x\<leftarrow>vs. (x - avg)\<^sup>2) / real (length vs - 1)) \<and>
              med = (if odd (length vs) then sort vs ! (length vs div 2)
                     else (sort vs ! (length vs div 2 - 1) + sort vs ! (length vs div 2)) / 2) \<and>
              length vs \<le> 2 * length (filter (\<lambda>x. x \<le> med) vs) \<and>
              length vs \<le> 2 * length (filter (\<lambda>x. med \<le> x) vs))) \<and>
         (\<forall>v. vs = [v] \<longrightarrow>
            calculate_statistics r selected_methods =
              Inr (r\<lparr>tc_average_min := Some v, tc_std_dev_min := Some 0,
                     tc_recommended_min := Some v\<rparr>)) \<and>
         (vs = [] \<longrightarrow> calculate_statistics r selected_methods = Inr r) \<and>
         (\<forall>x\<in>set vs. 0 < x) \<and>
         (valid_results (TCResults_new i p\<lparr>tc_kirpich_min := k, tc_faa_min := f,
                           tc_scs_min := s, tc_kerby_min := kb\<rparr>) ms = [] \<longrightarrow>
            (\<exists>r'. calculate_statistics (TCResults_new i p\<lparr>tc_kirpich_min := k, tc_faa_min := f,
                           tc_scs_min := s, tc_kerby_min := kb\<rparr>) ms = Inr r' \<and>
                  tc_average_min r' = None \<and> tc_std_dev_min r' = None \<and>
                  tc_recommended_min r' = None)) \<and>
         mean [10, 20, 30] = Inr 20 \<and> stdev [10, 20, 30] = Inr 10 \<and> median [10, 20, 30] = Inr 20"
proof -
  have many: "2 \<le> length vs \<longrightarrow>
           (\<exists>avg sd med.
              calculate_statistics r selected_methods =
                Inr (r\<lparr>tc_average_min := Some avg, tc_std_dev_min := Some sd,
                       tc_recommended_min := Some med\<rparr>) \<and>
              avg = sum_list vs / real (length vs) \<and>
              sd = sqrt ((\<Sum>x\<leftarrow>vs. (x - avg)\<^sup>2) / real (length vs - 1)) \<and>
              med = (if odd (length vs) then sort vs ! (length vs div 2)
                     else (sort vs ! (length vs div 2 - 1) + sort vs ! (length vs div 2)) / 2) \<and>
              length vs \<le> 2 * length (filter (\<lambda>x. x \<le> med) vs) \<and>
              length vs \<le> 2 * length (filter (\<lambda>x. med \<le> x) vs))"
  proof
    assume n: "2 \<le> length vs"
    then have ne: "vs \<noteq> []" by auto
    define avg where "avg = sum_list vs / real (length vs)"
    define sd where "sd = sqrt ((\<Sum>x\<leftarrow>vs. (x - avg)\<^sup>2) / real (length vs - 1))"
    define med where "med = (if odd (length vs) then sort vs ! (length vs div 2)
                     else (sort vs ! (length vs div 2 - 1) + sort vs ! (length vs div 2)) / 2)"
    have a: "mean vs = Inr avg" using ne by (simp add: mean_def avg_def)
    have b: "stdev vs = Inr sd" using n by (simp add: stdev_def sd_def avg_def Let_def)
    have c: "median vs = Inr med" using median_value [OF ne] by (simp add: med_def)
    have h: "length vs \<le> 2 * length (filter (\<lambda>x. x \<le> med) vs) \<and>
             length vs \<le> 2 * length (filter (\<lambda>x. med \<le> x) vs)"
      by (rule median_halves [OF ne c])
    have "calculate_statistics r selected_methods =
                Inr (r\<lparr>tc_average_min := Some avg, tc_std_dev_min := Some sd,
                       tc_recommended_min := Some med\<rparr>)"
      unfolding calculate_statistics_def assms [symmetric] Let_def
      using n a b c by simp
    then show "\<exists>avg sd med.
              calculate_statistics r selected_methods =
                Inr (r\<lparr>tc_average_min := Some avg, tc_std_dev_min := Some sd,
                       tc_recommended_min := Some med\<rparr>) \<and>
              avg = sum_list vs / real (length vs) \<and>
              sd = sqrt ((\<Sum>x\<leftarrow>vs. (x - avg)\<^sup>2) / real (length vs - 1)) \<and>
              med = (if odd (length vs) then sort vs ! (length vs div 2)
                     else (sort vs ! (length vs div 2 - 1) + sort vs ! (length vs div 2)) / 2) \<and>
              length vs \<le> 2 * length (filter (\<lambda>x. x \<le> med) vs) \<and>
              length vs \<le> 2 * length (filter (\<lambda>x. med \<le> x) vs)"
      using h avg_def sd_def med_def by blast
  qed
  have one: "\<forall>v. vs = [v] \<longrightarrow>
            calculate_statistics r selected_methods =
              Inr (r\<lparr>tc_average_min := Some v, tc_std_dev_min := Some 0,
                     tc_recommended_min := Some v\<rparr>)"
    unfolding calculate_statistics_def assms [symmetric] Let_def by simp
  have none: "vs = [] \<longrightarrow> calculate_statistics r selected_methods = Inr r"
    unfolding calculate_statistics_def assms [symmetric] Let_def by simp
  have pos: "\<forall>x\<in>set vs. 0 < x" unfolding assms by (rule valid_results_pos)
  have fresh: "valid_results (TCResults_new i p\<lparr>tc_kirpich_min := k, tc_faa_min := f,
                           tc_scs_min := s, tc_kerby_min := kb\<rparr>) ms = [] \<longrightarrow>
            (\<exists>r'. calculate_statistics (TCResults_new i p\<lparr>tc_kirpich_min := k, tc_faa_min := f,
                           tc_scs_min := s, tc_kerby_min := kb\<rparr>) ms = Inr r' \<and>
                  tc_average_min r' = None \<and> tc_std_dev_min r' = None \<and>
                  tc_recommended_min r' = None)"
    unfolding calculate_statistics_def Let_def by (simp add: TCResults_new_def)
  show ?thesis
    using many one none pos fresh statistics_example by (intro conjI)
qed


theorem comparative_statistics_witness:
  "valid_results
     (TCResults_new ''B1''
        \<lparr>flow_length_ft = 500, elevation_diff_ft = 10, slope_ft_ft = 0.02,
         upstream_elev_ft = 110, downstream_elev_ft = 100,
         curve_number = Some 70, runoff_coefficient = Some 0.5, roughness_coefficient = Some 0.3\<rparr>
      \<lparr>tc_kirpich_min := Some 10, tc_faa_min := Some 20, tc_scs_min := Some 30\<rparr>)
     [''kirpich'', ''faa'', ''scs'', ''kerby''] = [10, 20, 30] \<and>
   calculate_statistics
     (TCResults_new ''B1''
        \<lparr>flow_length_ft = 500, elevation_diff_ft = 10, slope_ft_ft = 0.02,
         upstream_elev_ft = 110, downstream_elev_ft = 100,
         curve_number = Some 70, runoff_coefficient = Some 0.5, roughness_coefficient = Some 0.3\<rparr>
      \<lparr>tc_kirpich_min := Some 10, tc_faa_min := Some 20, tc_scs_min := Some 30\<rparr>)
     [''kirpich'', ''faa'', ''scs'', ''kerby'']
   = Inr (TCResults_new ''B1''
        \<lparr>flow_length_ft = 500, elevation_diff_ft = 10, slope_ft_ft = 0.02,
         upstream_elev_ft = 110, downstream_elev_ft = 100,
         curve_number = Some 70, runoff_coefficient = Some 0.5, roughness_coefficient = Some 0.3\<rparr>
      \<lparr>tc_kirpich_min := Some 10, tc_faa_min := Some 20, tc_scs_min := Some 30,
        tc_average_min := Some 20, tc_std_dev_min := Some 10, tc_recommended_min := Some 20\<rparr>)"
proof -
  let ?r = "TCResults_new ''B1''
        \<lparr>flow_length_ft = 500, elevation_diff_ft = 10, slope_ft_ft = 0.02,
         upstream_elev_ft = 110, downstream_elev_ft = 100,
         curve_number = Some 70, runoff_coefficient = Some 0.5, roughness_coefficient = Some 0.3\<rparr>
      \<lparr>tc_kirpich_min := Some 10, tc_faa_min := Some 20, tc_scs_min := Some 30\<rparr>"
  let ?sel = "[''kirpich'', ''faa'', ''scs'', ''kerby'']"
  have v: "[10, 20, 30] = valid_results ?r ?sel"
    by (simp add: method_map_def TCResults_new_def)
  have n: "2 \<le> length [10, 20, 30 :: real]" by simp
  note ex = comparative_statistics [OF v, THEN conjunct1, THEN mp, OF n]
  from ex obtain avg sd med where
      c: "calculate_statistics ?r ?sel =
            Inr (?r\<lparr>tc_average_min := Some avg, tc_std_dev_min := Some sd,
                      tc_recommended_min := Some med\<rparr>)"
      and a: "avg = sum_list [10, 20, 30] / real (length [10, 20, 30 :: real])"
      and s: "sd = sqrt ((\<Sum>x\<leftarrow>[10, 20, 30]. (x - avg)\<^sup>2) / real (length [10, 20, 30 :: real] - 1))"
      and m: "med = (if odd (length [10, 20, 30 :: real]) then sort [10, 20, 30] ! (length [10, 20, 30 :: real] div 2)
                     else (sort [10, 20, 30] ! (length [10, 20, 30 :: real] div 2 - 1)
                           + sort [10, 20, 30] ! (length [10, 20, 30 :: real] div 2)) / 2)"
    by (elim exE conjE)
  have a': "avg = 20" using a by simp
  have s': "sd = 10" using s by (simp add: a' sqrt_100)
  have m': "med = 20" using m by simp
  show ?thesis using v c by (simp add: a' s' m')
qed

end
